theory Spec2Isabelle
  imports
    Main
    "HOL-Library.Sublist"
    "HOL-Library.Char_ord"
    "HOL-Library.List_Lexorder"
    "HOL-Library.Product_Lexorder"
begin

section \<open>Errors\<close>

text \<open>
  Both ingestion scripts stop at the first exception. Every \<^verbatim>\<open>assert\<close>, every lookup
  that can miss and every conversion that can fail is a branch returning \<open>Inl\<close> of one of
  these values.
\<close>

datatype error =
    AssertionError string
  | AttributeError
  | KeyError
  | ValueError
  | UnrecognizedContestFormat string

section \<open>Strings\<close>

text \<open>
  Python \<^verbatim>\<open>str\<close> values are modelled as \<open>string\<close>. The descriptions of the exports are
  ASCII apart from the dash of the bond measures, which is written as its three UTF-8 bytes;
  comparison of byte strings in UTF-8 agrees with Python's comparison by code point.
\<close>

text \<open>\<^verbatim>\<open>s.replace(old, new)\<close>: one pass from the left over non-overlapping occurrences.\<close>

function str_replace :: "string \<Rightarrow> string \<Rightarrow> string \<Rightarrow> string" where
  "str_replace old new s =
     (if old = [] then new @ concat (map (\<lambda>c. c # new) s)
      else if s = [] then []
      else if prefix old s then new @ str_replace old new (drop (length old) s)
      else hd s # str_replace old new (tl s))"
  by pat_completeness auto
termination
  by (relation "measure (\<lambda>(old, new, s). length s)") auto

declare str_replace.simps [simp del]

text \<open>\<^verbatim>\<open>int(digits)\<close> for a string of decimal digits, as \<^verbatim>\<open>\d+\<close> captures them.\<close>

definition digit_val :: "char \<Rightarrow> int" where
  "digit_val c = of_char c - 48"

definition int_of_digits :: "string \<Rightarrow> int" where
  "int_of_digits ds = foldl (\<lambda>acc c. 10 * acc + digit_val c) 0 ds"

section \<open>The regular expressions of the scripts\<close>

text \<open>
  The patterns used by the scripts are sequences of literals, greedy repetitions of one
  character class (captured or not), an optional literal and the end anchor. \<open>match_here\<close>
  is Python's backtracking matcher on that fragment: a repetition first takes as many
  characters as it can and gives them back one at a time until the rest of the pattern
  matches. The result is the list of captured groups and the number of characters matched.
  \<open>Eos\<close> is \<^verbatim>\<open>$\<close>: the end of the string, or the position before a final newline.
\<close>

datatype item =
    Lit string
  | Rep "char \<Rightarrow> bool" nat
  | Grp "char \<Rightarrow> bool" nat
  | Opt string
  | Eos

fun first_some :: "('a \<Rightarrow> 'b option) \<Rightarrow> 'a list \<Rightarrow> 'b option" where
  "first_some f [] = None"
| "first_some f (x # xs) = (case f x of Some y \<Rightarrow> Some y | None \<Rightarrow> first_some f xs)"

fun match_here :: "item list \<Rightarrow> string \<Rightarrow> (string list \<times> nat) option" where
  "match_here [] s = Some ([], 0)"
| "match_here (Lit l # r) s =
     (if take (length l) s = l
      then map_option (\<lambda>(g, n). (g, length l + n)) (match_here r (drop (length l) s))
      else None)"
| "match_here (Rep p m # r) s =
     first_some (\<lambda>k. map_option (\<lambda>(g, n). (g, k + n)) (match_here r (drop k s)))
       (rev [m ..< Suc (length (takeWhile p s))])"
| "match_here (Grp p m # r) s =
     first_some (\<lambda>k. map_option (\<lambda>(g, n). (take k s # g, k + n)) (match_here r (drop k s)))
       (rev [m ..< Suc (length (takeWhile p s))])"
| "match_here (Opt l # r) s =
     (case (if take (length l) s = l
            then map_option (\<lambda>(g, n). (g, length l + n)) (match_here r (drop (length l) s))
            else None) of
        Some y \<Rightarrow> Some y
      | None \<Rightarrow> match_here r s)"
| "match_here (Eos # r) s =
     (if s = [] \<or> s = [CHR 0x0A] then match_here r s else None)"

text \<open>
  \<^verbatim>\<open>re.search\<close>: the match at the leftmost position that has one, as
  (start, groups, end).
\<close>

definition re_search :: "item list \<Rightarrow> string \<Rightarrow> (nat \<times> string list \<times> nat) option" where
  "re_search pat s =
     first_some (\<lambda>i. map_option (\<lambda>(g, n). (i, g, i + n)) (match_here pat (drop i s)))
       [0 ..< Suc (length s)]"

definition is_digit :: "char \<Rightarrow> bool" where
  "is_digit c = (CHR ''0'' \<le> c \<and> c \<le> CHR ''9'')"

definition not_newline :: "char \<Rightarrow> bool" where
  "not_newline c = (c \<noteq> CHR 0x0A)"

definition not_comma :: "char \<Rightarrow> bool" where
  "not_comma c = (c \<noteq> CHR '','')"

text \<open>\<^verbatim>\<open>r" \(Vote For=(\d+)\)$"\<close>\<close>

definition vote_for_pattern :: "item list" where
  "vote_for_pattern = [Lit '' (Vote For='', Grp is_digit 1, Lit '')'', Eos]"

text \<open>\<^verbatim>\<open>r", ([^,]*) Term$"\<close>\<close>

definition term_pattern :: "item list" where
  "term_pattern = [Lit '', '', Grp not_comma 0, Lit '' Term'', Eos]"

section \<open>The transformer chain\<close>

type_synonym office_key = "string \<times> string \<times> string \<times> string"

type_synonym transformer = "string \<Rightarrow> office_key option"

text \<open>
  Modelled from the spec: \<^verbatim>\<open>common_lib.transform\<close> and the two \<^verbatim>\<open>TRANSFORMERS\<close> lists
  are not among the sources. The spec describes an ordered list of pattern matchers, each
  returning a (level, jurisdiction, office, district) tuple or declining; the first match
  wins, and no match is the fatal \<^verbatim>\<open>UnrecognizedContestFormat\<close> naming the string. The
  list itself is a parameter of everything below.
\<close>

fun transform :: "string \<Rightarrow> transformer list \<Rightarrow> error + office_key" where
  "transform s [] = Inl (UnrecognizedContestFormat s)"
| "transform s (t # ts) = (case t s of Some k \<Rightarrow> Inr k | None \<Rightarrow> transform s ts)"

section \<open>Standardizing a contest description (wide spreadsheet)\<close>

text \<open>
  \<^verbatim>\<open>scc_ingest.standardize\<close>, in the order of its statements. \<open>collapse_spaces\<close> is
  \<^verbatim>\<open>contest.replace("  ", " ")\<close>; \<open>parse_vote_for\<close> is the first search, where a missing
  match makes \<^verbatim>\<open>match.group(1)\<close> raise \<^verbatim>\<open>AttributeError\<close>; \<open>parse_term\<close> is the second
  search with its default.
\<close>

definition collapse_spaces :: "string \<Rightarrow> string" where
  "collapse_spaces contest = str_replace ''  '' '' '' contest"

definition parse_vote_for :: "string \<Rightarrow> error + (int \<times> string)" where
  "parse_vote_for contest =
     (case re_search vote_for_pattern contest of
        None \<Rightarrow> Inl AttributeError
      | Some (start, groups, _) \<Rightarrow> Inr (int_of_digits (hd groups), take start contest))"

definition parse_term :: "string \<Rightarrow> string \<times> string" where
  "parse_term contest =
     (case re_search term_pattern contest of
        None \<Rightarrow> (''Full'', contest)
      | Some (start, groups, _) \<Rightarrow> (hd groups, take start contest))"

definition standardize ::
  "transformer list \<Rightarrow> string \<Rightarrow> error + (string \<times> string \<times> string \<times> string \<times> string \<times> int)" where
  "standardize transformers contest =
     (case parse_vote_for (collapse_spaces contest) of
        Inl e \<Rightarrow> Inl e
      | Inr (vote_for, contest1) \<Rightarrow>
          (case parse_term contest1 of (term, contest2) \<Rightarrow>
             (case transform contest2 transformers of
                Inl e \<Rightarrow> Inl e
              | Inr (level, jurisdiction, office, district) \<Rightarrow>
                  Inr (level, jurisdiction, office, district, term, vote_for))))"


text \<open>
  A one-entry transformer chain for the evaluations below: it recognises the description
  \<^verbatim>\<open>Governor\<close> and declines every other string.
\<close>

definition governor_transformer :: transformer where
  "governor_transformer s =
     (if s = ''Governor'' then Some (''State'', ''California'', ''Governor'', ''Statewide'')
      else None)"


section \<open>Tables and the library operations on them\<close>

text \<open>
  \<^verbatim>\<open>astype(np.int8)\<close>, \<^verbatim>\<open>np.int16\<close> and \<^verbatim>\<open>np.int32\<close> on integers keep the low bits:
  the value is wrapped into the signed range of the width.
\<close>

definition wrap_int :: "nat \<Rightarrow> int \<Rightarrow> int" where
  "wrap_int w x = (x + 2 ^ (w - 1)) mod 2 ^ w - 2 ^ (w - 1)"

definition int8 :: "int \<Rightarrow> int" where
  "int8 x = wrap_int 8 x"

definition int16 :: "int \<Rightarrow> int" where
  "int16 x = wrap_int 16 x"

definition int32 :: "int \<Rightarrow> int" where
  "int32 x = wrap_int 32 x"

text \<open>
  \<^verbatim>\<open>astype\<close> of a column of text cells to an integer type. The conversion reads a cell
  as Python's \<^verbatim>\<open>int()\<close> does; the model reads an optional minus sign followed by decimal
  digits, the way the exports write numbers, and rejects any other text. A missing cell
  (NaN) cannot be converted.
\<close>

definition parse_int :: "string \<Rightarrow> int option" where
  "parse_int s =
     (case s of
        [] \<Rightarrow> None
      | c # r \<Rightarrow>
          if c = CHR ''-'' then
            (if r \<noteq> [] \<and> list_all is_digit r then Some (- int_of_digits r) else None)
          else if list_all is_digit s then Some (int_of_digits s)
          else None)"

definition astype_int :: "nat \<Rightarrow> string option \<Rightarrow> error + int" where
  "astype_int w cell =
     (case cell of
        None \<Rightarrow> Inl ValueError
      | Some s \<Rightarrow> (case parse_int s of None \<Rightarrow> Inl ValueError | Some v \<Rightarrow> Inr (wrap_int w v)))"

text \<open>A column operation that can raise stops at the first cell that does.\<close>

fun traverse :: "('a \<Rightarrow> error + 'b) \<Rightarrow> 'a list \<Rightarrow> error + 'b list" where
  "traverse f [] = Inr []"
| "traverse f (x # xs) =
     (case f x of
        Inl e \<Rightarrow> Inl e
      | Inr y \<Rightarrow> (case traverse f xs of Inl e \<Rightarrow> Inl e | Inr ys \<Rightarrow> Inr (y # ys)))"

text \<open>
  \<^verbatim>\<open>Index.factorize()[0]\<close>: the codes of the values in order of first appearance. The
  table of values seen so far grows by one entry whenever a new value arrives, and the new
  value's code is its position in that table.
\<close>

fun position :: "'a \<Rightarrow> 'a list \<Rightarrow> nat" where
  "position x [] = 0"
| "position x (y # ys) = (if x = y then 0 else Suc (position x ys))"

fun factorize_from :: "'a list \<Rightarrow> 'a list \<Rightarrow> nat list" where
  "factorize_from seen [] = []"
| "factorize_from seen (x # xs) =
     (if x \<in> set seen then position x seen # factorize_from seen xs
      else length seen # factorize_from (seen @ [x]) xs)"

definition factorize :: "'a list \<Rightarrow> nat list" where
  "factorize xs = factorize_from [] xs"

text \<open>\<^verbatim>\<open>drop_duplicates()\<close>: the first row of every group of equal rows, in order.\<close>

fun drop_duplicates_from :: "'a list \<Rightarrow> 'a list \<Rightarrow> 'a list" where
  "drop_duplicates_from seen [] = []"
| "drop_duplicates_from seen (x # xs) =
     (if x \<in> set seen then drop_duplicates_from seen xs
      else x # drop_duplicates_from (x # seen) xs)"

definition drop_duplicates :: "'a list \<Rightarrow> 'a list" where
  "drop_duplicates xs = drop_duplicates_from [] xs"

text \<open>
  The levels of an index level built from a column of strings: its distinct values in
  sorted order. A row's code is the position of its value among the levels.
\<close>

definition levels_of :: "string list \<Rightarrow> string list" where
  "levels_of xs = sort (remdups xs)"

record office_row =
  o_office_id :: int
  o_level :: string
  o_jurisdiction :: string
  o_office :: string
  o_district :: string

record contest_row =
  contest_id :: int
  vote_for :: int
  ranked :: bool
  office_id :: int

record candidate_row =
  candidate_id :: int
  cand_name :: "string option"
  cand_party :: "string option"

record mark_row =
  m_cvr_id :: int
  m_contest_id :: int
  m_rank :: int
  m_candidate_id :: int

text \<open>
  The office part shared by both scripts: \<^verbatim>\<open>factorize\<close> over the
  (level, jurisdiction, office, district) rows of the contest frame, cast to
  \<^verbatim>\<open>np.int16\<close>, and the office table as the de-duplicated rows of those four columns
  together with the new \<^verbatim>\<open>office_id\<close>.
\<close>

definition office_ids :: "office_key list \<Rightarrow> int list" where
  "office_ids keys = map (\<lambda>code. int16 (int code)) (factorize keys)"

definition office_table :: "office_key list \<Rightarrow> office_row list" where
  "office_table keys =
     map (\<lambda>((l, j, off, d), oid).
            \<lparr>o_office_id = oid, o_level = l, o_jurisdiction = j, o_office = off, o_district = d\<rparr>)
       (drop_duplicates (zip keys (office_ids keys)))"

section \<open>The wide spreadsheet (\<^verbatim>\<open>scc_ingest\<close>)\<close>

subsection \<open>The raw frame\<close>

text \<open>
  The frame \<^verbatim>\<open>read_csv\<close> returns. Its first eight columns are the ballot number and the
  seven identity fields, in the order of the export; their cells are text or missing
  (\<open>None\<close> is NaN). Every further column has a (contest, candidate, party) header and one
  cell per ballot: a rank, or NaN where the cell was empty or \<^verbatim>\<open>0\<close>
  (\<^verbatim>\<open>na_values=[0]\<close>).
\<close>

record raw_row =
  CvrNumber :: "string option"
  TabulatorNum :: "string option"
  BatchId :: "string option"
  RecordId :: "string option"
  ImprintedId :: "string option"
  CountingGroup :: "string option"
  PrecinctPortion :: "string option"
  BallotType :: "string option"

type_synonym header = "string \<times> string \<times> string"

record raw_frame =
  id_rows :: "raw_row list"
  mark_columns :: "(header \<times> int option list) list"

text \<open>
  \<^verbatim>\<open>read_raw\<close>: the first \<^verbatim>\<open>*.gz\<close> file of the directory, \<^verbatim>\<open>list(...)[0]\<close> raising when
  there is none (the error is reported here as \<open>KeyError\<close>), cut to \<^verbatim>\<open>nrows\<close> rows when
  a limit is given.
\<close>

definition read_raw :: "raw_frame list \<Rightarrow> nat option \<Rightarrow> error + raw_frame" where
  "read_raw path nrows =
     (case path of
        [] \<Rightarrow> Inl KeyError
      | df # _ \<Rightarrow>
          (case nrows of
             None \<Rightarrow> Inr df
           | Some n \<Rightarrow>
               Inr \<lparr>id_rows = take n (id_rows df),
                    mark_columns = map (\<lambda>(h, cells). (h, take n cells)) (mark_columns df)\<rparr>))"

subsection \<open>\<^verbatim>\<open>reformat_strings\<close>, \<^verbatim>\<open>set_index\<close>, \<^verbatim>\<open>split_cvr\<close>\<close>

text \<open>\<^verbatim>\<open>.str[2:-1]\<close> on the first five columns; a missing cell stays missing.\<close>

definition reformat :: "string option \<Rightarrow> string option" where
  "reformat cell = map_option (\<lambda>s. drop 2 (butlast s)) cell"

definition reformat_strings :: "raw_frame \<Rightarrow> raw_frame" where
  "reformat_strings df =
     df\<lparr>id_rows :=
          map (\<lambda>r. r\<lparr>CvrNumber := reformat (CvrNumber r),
                      TabulatorNum := reformat (TabulatorNum r),
                      BatchId := reformat (BatchId r),
                      RecordId := reformat (RecordId r),
                      ImprintedId := reformat (ImprintedId r)\<rparr>)
            (id_rows df)\<rparr>"

text \<open>
  \<^verbatim>\<open>set_index\<close>: the first column, cast to \<^verbatim>\<open>np.int32\<close>, becomes the index
  \<^verbatim>\<open>cvr_id\<close>. Nothing checks that its values differ.
\<close>

definition set_index :: "raw_frame \<Rightarrow> error + int list" where
  "set_index df = traverse (\<lambda>r. astype_int 32 (CvrNumber r)) (id_rows df)"

text \<open>
  \<^verbatim>\<open>split_cvr\<close>: the seven identity columns, with the index, leave the frame; the mark
  columns stay.
\<close>

definition split_cvr :: "int list \<Rightarrow> raw_frame \<Rightarrow> (int \<times> raw_row) list" where
  "split_cvr index df = zip index (id_rows df)"

subsection \<open>\<^verbatim>\<open>check_and_clean_id_invariants\<close>\<close>

text \<open>
  Text columns are added and compared cell by cell; a missing operand makes the sum
  missing, and a comparison with a missing cell is false.
\<close>

definition str_add :: "string option \<Rightarrow> string option \<Rightarrow> string option" where
  "str_add a b = (case (a, b) of (Some x, Some y) \<Rightarrow> Some (x @ y) | _ \<Rightarrow> None)"

definition cell_eq :: "string option \<Rightarrow> string option \<Rightarrow> bool" where
  "cell_eq a b = (case (a, b) of (Some x, Some y) \<Rightarrow> x = y | _ \<Rightarrow> False)"

definition i_id :: "raw_row \<Rightarrow> string option" where
  "i_id r =
     str_add (str_add (str_add (str_add (TabulatorNum r) (Some ''-'')) (BatchId r)) (Some ''-''))
       (RecordId r)"

definition imprinted_id_ok :: "raw_row \<Rightarrow> bool" where
  "imprinted_id_ok r = (cell_eq (ImprintedId r) (i_id r) \<or> cell_eq (ImprintedId r) (Some []))"

text \<open>
  \<^verbatim>\<open>.str.extract(pattern)\<close>: the groups of the first match in the cell; all groups are
  missing when the cell is missing or nothing matches.
\<close>

definition str_extract :: "item list \<Rightarrow> string option \<Rightarrow> string list option" where
  "str_extract pat cell =
     (case cell of
        None \<Rightarrow> None
      | Some s \<Rightarrow> map_option (\<lambda>(start, groups, _). groups) (re_search pat s))"

text \<open>\<^verbatim>\<open>r"(?P<a>.+) \((?P<b>.+)\)"\<close>\<close>

definition ballot_type_pattern :: "item list" where
  "ballot_type_pattern = [Grp not_newline 1, Lit '' ('', Grp not_newline 1, Lit '')'']"

text \<open>\<^verbatim>\<open>r"0*(?P<a>\d+) \((?P<Precinct1>\d+)-?(?P<Precinct2>\d*)\)"\<close>\<close>

definition precinct_regex :: "item list" where
  "precinct_regex =
     [Rep (\<lambda>c. c = CHR ''0'') 0, Grp is_digit 1, Lit '' ('', Grp is_digit 1, Opt ''-'',
      Grp is_digit 0, Lit '')'']"

definition group :: "nat \<Rightarrow> string list option \<Rightarrow> string option" where
  "group n groups =
     (case groups of None \<Rightarrow> None | Some gs \<Rightarrow> if n < length gs then Some (gs ! n) else None)"

definition ballot_type_ok :: "raw_row \<Rightarrow> bool" where
  "ballot_type_ok r =
     (let df_check = str_extract ballot_type_pattern (BallotType r)
      in cell_eq (group 0 df_check) (group 1 df_check))"

definition precinct_ok :: "raw_row \<Rightarrow> bool" where
  "precinct_ok r =
     (let df_check = str_extract precinct_regex (PrecinctPortion r)
      in cell_eq (group 0 df_check) (group 1 df_check))"

record cvr_row =
  scc_cvr_id :: int
  tabulator_num :: int
  batch_id :: int
  record_id :: int
  counting_group :: "string option"
  ballot_type :: "string option"
  precinct1 :: "string option"
  precinct2 :: "string option"

text \<open>
  The function, statement by statement: the imprinted-id assertion; the
  \<^verbatim>\<open>ImprintedId\<close> column dropped and the tabulator and batch numbers cast to
  \<^verbatim>\<open>np.int16\<close>; the ballot-type assertion; the precinct assertion (its message is
  spelled as in the source); the record number cast to \<^verbatim>\<open>np.int32\<close>. The rows that
  come out have no \<^verbatim>\<open>ImprintedId\<close> and no \<^verbatim>\<open>PrecinctPortion\<close> field.
\<close>

definition clean_row :: "(int \<times> raw_row) \<times> (int \<times> int) \<times> int \<Rightarrow> cvr_row" where
  "clean_row x =
     (case x of ((i, r), (tab, batch), rec) \<Rightarrow>
        \<lparr>scc_cvr_id = i, tabulator_num = tab, batch_id = batch, record_id = rec,
         counting_group = CountingGroup r,
         ballot_type = group 0 (str_extract ballot_type_pattern (BallotType r)),
         precinct1 = group 1 (str_extract precinct_regex (PrecinctPortion r)),
         precinct2 = group 2 (str_extract precinct_regex (PrecinctPortion r))\<rparr>)"

definition check_and_clean_id_invariants :: "(int \<times> raw_row) list \<Rightarrow> error + cvr_row list" where
  "check_and_clean_id_invariants df_id =
     (if \<not> list_all (\<lambda>(i, r). imprinted_id_ok r) df_id
      then Inl (AssertionError ''ImprintedId mismatch'')
      else
        (case traverse (\<lambda>(i, r).
                 case astype_int 16 (TabulatorNum r) of
                   Inl e \<Rightarrow> Inl e
                 | Inr tab \<Rightarrow>
                     (case astype_int 16 (BatchId r) of
                        Inl e \<Rightarrow> Inl e
                      | Inr batch \<Rightarrow> Inr (tab, batch))) df_id of
           Inl e \<Rightarrow> Inl e
         | Inr tab_batch \<Rightarrow>
             if \<not> list_all (\<lambda>(i, r). ballot_type_ok r) df_id
             then Inl (AssertionError ''BallotType mismatch'')
             else if \<not> list_all (\<lambda>(i, r). precinct_ok r) df_id
             then Inl (AssertionError ''PrecintPortion mismatch'')
             else
               (case traverse (\<lambda>(i, r). astype_int 32 (RecordId r)) df_id of
                  Inl e \<Rightarrow> Inl e
                | Inr recs \<Rightarrow> Inr (map clean_row (zip df_id (zip tab_batch recs))))))"

subsection \<open>\<^verbatim>\<open>update_column_index\<close> and \<^verbatim>\<open>tidy\<close>\<close>

text \<open>\<^verbatim>\<open>x.str.contains("Unnamed")\<close>: the text occurs somewhere in the label.\<close>

fun contains :: "string \<Rightarrow> string \<Rightarrow> bool" where
  "contains sub [] = (sub = [])"
| "contains sub (c # s) = (prefix sub (c # s) \<or> contains sub s)"

definition blank_unnamed :: "string \<Rightarrow> string" where
  "blank_unnamed x = (if contains ''Unnamed'' x then [] else x)"

text \<open>
  \<^verbatim>\<open>replace(r"BONDS-(YES|NO)", r"\1", regex=True)\<close>, where the dash of the pattern is
  the em dash U+2014, here its UTF-8 bytes: every occurrence, from the left, is replaced
  by its captured \<^verbatim>\<open>YES\<close> or \<^verbatim>\<open>NO\<close>.
\<close>

definition bonds :: string where
  "bonds = ''BONDS'' @ [CHR 0xE2, CHR 0x80, CHR 0x94]"

function bonds_sub :: "string \<Rightarrow> string" where
  "bonds_sub s =
     (if s = [] then []
      else if prefix (bonds @ ''YES'') s
        then ''YES'' @ bonds_sub (drop (length (bonds @ ''YES'')) s)
      else if prefix (bonds @ ''NO'') s
        then ''NO'' @ bonds_sub (drop (length (bonds @ ''NO'')) s)
      else hd s # bonds_sub (tl s))"
  by pat_completeness auto
termination
  by (relation "measure length") (auto simp: bonds_def)

declare bonds_sub.simps [simp del]

text \<open>
  \<^verbatim>\<open>update_column_index\<close>. Dropping the label \<^verbatim>\<open>Write-in\<close> on the candidate level
  raises \<^verbatim>\<open>KeyError\<close> when no column carries it. The remaining headers are blanked where
  they are unnamed, the bond responses are shortened, and candidate and party are joined
  by \<^verbatim>\<open>;\<close> into one label.
\<close>

definition new_header :: "header \<Rightarrow> string \<times> string" where
  "new_header h =
     (case h of (contest, candidate, party) \<Rightarrow>
        (blank_unnamed contest,
         bonds_sub (blank_unnamed candidate) @ '';'' @ blank_unnamed party))"

definition update_column_index ::
  "(header \<times> int option list) list \<Rightarrow> error + ((string \<times> string) \<times> int option list) list" where
  "update_column_index cols =
     (if \<not> list_ex (\<lambda>((contest, candidate, party), cells). candidate = ''Write-in'') cols
      then Inl KeyError
      else Inr (map (\<lambda>(h, cells). (new_header h, cells))
                  (filter (\<lambda>((contest, candidate, party), cells). candidate \<noteq> ''Write-in'')
                     cols)))"

text \<open>
  \<^verbatim>\<open>tidy\<close>: \<^verbatim>\<open>melt\<close> lists the cells column by column, each with the ballot's index
  and the two labels of its column; \<^verbatim>\<open>dropna\<close> removes the cells without a rank; the
  rank is cast to \<^verbatim>\<open>np.int8\<close>; the rows are sorted by (cvr_id, contest, candidate).
  A row is (cvr_id, contest, candidate, rank).
\<close>

type_synonym long_row = "int \<times> string \<times> string \<times> int"

definition melt :: "int list \<Rightarrow> ((string \<times> string) \<times> int option list) list
    \<Rightarrow> (int \<times> string \<times> string \<times> int option) list" where
  "melt index cols =
     concat (map (\<lambda>((contest, candidate), cells).
                    map (\<lambda>(i, cell). (i, contest, candidate, cell)) (zip index cells)) cols)"

definition dropna :: "(int \<times> string \<times> string \<times> int option) list \<Rightarrow> long_row list" where
  "dropna rows =
     List.map_filter (\<lambda>(i, contest, candidate, cell).
        map_option (\<lambda>rank. (i, contest, candidate, rank)) cell) rows"

text \<open>
  The long frame that \<^verbatim>\<open>tidy\<close> returns. Its index levels \<^verbatim>\<open>contest\<close> and
  \<^verbatim>\<open>candidate\<close> are the categories given to the column labels by
  \<^verbatim>\<open>astype("category")\<close> in \<^verbatim>\<open>update_column_index\<close>: the distinct labels of all
  remaining columns, in sorted order, whether or not a column has any mark. The rows are
  (cvr_id, contest, candidate, rank).
\<close>

type_synonym long_frame = "string list \<times> string list \<times> long_row list"

definition tidy :: "int list \<Rightarrow> ((string \<times> string) \<times> int option list) list \<Rightarrow> long_frame" where
  "tidy index cols =
     (levels_of (map (\<lambda>((contest, candidate), cells). contest) cols),
      levels_of (map (\<lambda>((contest, candidate), cells). candidate) cols),
      sort_key (\<lambda>(i, contest, candidate, rank). (i, contest, candidate))
        (map (\<lambda>(i, contest, candidate, rank). (i, contest, candidate, int8 rank))
           (dropna (melt index cols))))"

subsection \<open>\<^verbatim>\<open>split_contest\<close> and \<^verbatim>\<open>split_candidate\<close>\<close>

record scc_contest_row = contest_row +
  term_label :: string

text \<open>
  \<^verbatim>\<open>split_contest\<close>. Every description of the contest level
  (\<^verbatim>\<open>df.index.levels\<close>) is standardized, in the order of the level; the contest
  table's index is the positions \<^verbatim>\<open>0, 1, ...\<close> cast to \<^verbatim>\<open>np.int16\<close>.
  \<^verbatim>\<open>set_levels\<close> then replaces the level by that index, so that every row carries
  the index value at the position of its description.
\<close>

definition split_contest ::
  "transformer list \<Rightarrow> long_frame
    \<Rightarrow> error + (scc_contest_row list \<times> office_row list
                 \<times> (string list \<times> (int \<times> int \<times> string \<times> int) list))" where
  "split_contest transformers df =
     (case df of (levels, candidate_levels, rows) \<Rightarrow>
        (case traverse (standardize transformers) levels of
           Inl e \<Rightarrow> Inl e
         | Inr contest_data \<Rightarrow>
             (let keys = map (\<lambda>(l, j, off, d, tm, v). (l, j, off, d)) contest_data;
                  df_contest =
                    map (\<lambda>(n, (l, j, off, d, tm, v), oid).
                           \<lparr>contest_id = int16 (int n), vote_for = int8 v, ranked = False,
                            office_id = oid, term_label = tm\<rparr>)
                      (zip [0 ..< length contest_data] (zip contest_data (office_ids keys)))
              in Inr (df_contest, office_table keys,
                      (candidate_levels,
                       map (\<lambda>(i, contest, candidate, rank).
                              (i, int16 (int (position contest levels)), candidate, rank))
                         rows)))))"

text \<open>\<^verbatim>\<open>e.split(";")\<close>\<close>

fun split_on :: "char \<Rightarrow> string \<Rightarrow> string list" where
  "split_on sep [] = [[]]"
| "split_on sep (c # s) =
     (if c = sep then [] # split_on sep s
      else (case split_on sep s of [] \<Rightarrow> [[c]] | w # ws \<Rightarrow> (c # w) # ws))"

text \<open>\<^verbatim>\<open>.replace("", None)\<close>: an empty text becomes a missing value.\<close>

definition none_if_empty :: "string \<Rightarrow> string option" where
  "none_if_empty s = (if s = [] then None else Some s)"

text \<open>
  \<^verbatim>\<open>split_candidate\<close>. Every label of the candidate level is split at \<^verbatim>\<open>;\<close>. The
  frame has the two columns name and party, so the constructor raises \<^verbatim>\<open>ValueError\<close>
  unless the longest split has two fields (an empty level gives an empty frame); a
  shorter split is padded with a missing party.
\<close>

definition split_candidate ::
  "string list \<times> (int \<times> int \<times> string \<times> int) list
    \<Rightarrow> error + (candidate_row list \<times> (int \<times> int \<times> int \<times> int) list)" where
  "split_candidate df =
     (case df of (levels, rows) \<Rightarrow>
        (let cand_data = map (split_on CHR '';'') levels
         in if cand_data \<noteq> []
               \<and> \<not> (list_all (\<lambda>e. length e \<le> 2) cand_data
                     \<and> list_ex (\<lambda>e. length e = 2) cand_data)
            then Inl ValueError
            else
              Inr (map (\<lambda>(n, e).
                          \<lparr>candidate_id = int16 (int n),
                           cand_name = none_if_empty (hd e),
                           cand_party = (if length e = 2 then none_if_empty (e ! 1) else None)\<rparr>)
                     (zip [0 ..< length cand_data] cand_data),
                   map (\<lambda>(i, contest, candidate, rank).
                          (i, contest, int16 (int (position candidate levels)), rank)) rows)))"

subsection \<open>\<^verbatim>\<open>preprocess\<close> and \<^verbatim>\<open>preprocess_path\<close>\<close>

type_synonym scc_tables =
  "cvr_row list \<times> scc_contest_row list \<times> office_row list \<times> candidate_row list \<times> mark_row list"

text \<open>
  The last three statements of \<^verbatim>\<open>preprocess\<close> move the candidate from the index to a
  column, add the rank to the index and sort by (cvr_id, contest_id, rank).
\<close>

definition mark_table :: "(int \<times> int \<times> int \<times> int) list \<Rightarrow> mark_row list" where
  "mark_table df =
     sort_key (\<lambda>m. (m_cvr_id m, m_contest_id m, m_rank m))
       (map (\<lambda>(i, contest, candidate, rank).
               \<lparr>m_cvr_id = i, m_contest_id = contest, m_rank = rank, m_candidate_id = candidate\<rparr>)
          df)"

definition preprocess :: "transformer list \<Rightarrow> raw_frame \<Rightarrow> error + scc_tables" where
  "preprocess transformers df0 =
     (let df = reformat_strings df0
      in case set_index df of
           Inl e \<Rightarrow> Inl e
         | Inr index \<Rightarrow>
             (case check_and_clean_id_invariants (split_cvr index df) of
                Inl e \<Rightarrow> Inl e
              | Inr df_cvr \<Rightarrow>
                  (case update_column_index (mark_columns df) of
                     Inl e \<Rightarrow> Inl e
                   | Inr cols \<Rightarrow>
                       (case split_contest transformers (tidy index cols) of
                          Inl e \<Rightarrow> Inl e
                        | Inr (df_contest, df_office, df1) \<Rightarrow>
                            (case split_candidate df1 of
                               Inl e \<Rightarrow> Inl e
                             | Inr (df_candidate, df2) \<Rightarrow>
                                 Inr (df_cvr, df_contest, df_office, df_candidate,
                                      mark_table df2))))))"

text \<open>
  Modelled from the spec: \<^verbatim>\<open>common_lib.write\<close> is not among the sources. The spec says
  that the five tables are handed to an external persistence collaborator as one unit; the
  model keeps the list of table sets handed over so far.
\<close>

definition write_tables :: "'t \<Rightarrow> 't list \<Rightarrow> 't list" where
  "write_tables tables out_path = out_path @ [tables]"

text \<open>
  \<^verbatim>\<open>preprocess_path\<close>: read, preprocess, write. An exception in the first two leaves
  the function before \<^verbatim>\<open>write\<close> is reached.
\<close>

definition preprocess_path ::
  "transformer list \<Rightarrow> raw_frame list \<Rightarrow> scc_tables list \<Rightarrow> nat option
    \<Rightarrow> (error + unit) \<times> scc_tables list" where
  "preprocess_path transformers in_path out_path nrows =
     (case read_raw in_path nrows of
        Inl e \<Rightarrow> (Inl e, out_path)
      | Inr df \<Rightarrow>
          (case preprocess transformers df of
             Inl e \<Rightarrow> (Inl e, out_path)
           | Inr tables \<Rightarrow> (Inr (), write_tables tables out_path)))"

section \<open>The nested per-ballot documents (\<^verbatim>\<open>sf_ingest\<close>)\<close>

subsection \<open>The archive\<close>

text \<open>
  The JSON documents of the archive, with the fields the script reads. A ballot document
  is the list of its sessions; a session is the list \<^verbatim>\<open>sess["Original"]["Cards"]\<close>; a
  card is the list \<^verbatim>\<open>card["Contests"]\<close>. The two manifests are the arrays under their
  \<^verbatim>\<open>List\<close> key. The file list is in archive order and contains the manifests as well.
\<close>

record raw_mark =
  CandidateId :: int
  Rank :: int
  IsVote :: bool
  IsAmbiguous :: bool

record card_contest =
  cc_Id :: int
  Marks :: "raw_mark list"

type_synonym card = "card_contest list"

type_synonym session = "card list"

record contest_entry =
  c_Id :: int
  c_ExternalId :: int
  c_DistrictId :: int
  c_VoteFor :: int
  c_NumOfRanks :: int
  c_Disabled :: bool
  c_Description :: string

record candidate_entry =
  k_Id :: int
  k_ExternalId :: string
  k_ContestId :: int
  k_Type :: string
  k_Disabled :: bool
  k_Description :: string

record archive =
  ContestManifest :: "contest_entry list"
  CandidateManifest :: "candidate_entry list"
  filelist :: "(string \<times> session list) list"

subsection \<open>\<^verbatim>\<open>read_raw\<close>\<close>

text \<open>
  The state of the loop: the next ballot id, the ballot rows (id, file name) and the mark
  rows (cvr_id, contest_id, candidate_id, rank, is_vote, is_ambiguous). One ballot id is
  given to every card, in reading order.
\<close>

type_synonym raw_mark_row = "int \<times> int \<times> int \<times> int \<times> bool \<times> bool"

type_synonym read_state = "int \<times> (int \<times> string) list \<times> raw_mark_row list"

definition read_card :: "string \<Rightarrow> card \<Rightarrow> read_state \<Rightarrow> read_state" where
  "read_card filename contests st =
     (case st of (cvr_id, cvr_data, mark_data) \<Rightarrow>
        (cvr_id + 1,
         cvr_data @ [(cvr_id, filename)],
         mark_data @
           concat (map (\<lambda>contest.
                          map (\<lambda>mark. (cvr_id, cc_Id contest, CandidateId mark, Rank mark,
                                        IsVote mark, IsAmbiguous mark))
                            (Marks contest))
                     contests)))"

definition read_file :: "string \<Rightarrow> session list \<Rightarrow> read_state \<Rightarrow> read_state" where
  "read_file filename sessions st = fold (\<lambda>sess. fold (read_card filename) sess) sessions st"

text \<open>
  The loop over the file list: \<^verbatim>\<open>break\<close> at position \<^verbatim>\<open>nfiles\<close>, \<^verbatim>\<open>continue\<close> past
  every file whose name does not start with \<^verbatim>\<open>CvrExport_\<close>.
\<close>

fun read_files :: "nat option \<Rightarrow> nat \<Rightarrow> (string \<times> session list) list \<Rightarrow> read_state \<Rightarrow> read_state" where
  "read_files nfiles idx [] st = st"
| "read_files nfiles idx ((filename, sessions) # files) st =
     (if Some idx = nfiles then st
      else if \<not> prefix ''CvrExport_'' filename then read_files nfiles (Suc idx) files st
      else read_files nfiles (Suc idx) files (read_file filename sessions st))"

definition sf_read_raw ::
  "archive \<Rightarrow> nat option
    \<Rightarrow> (int \<times> string) list \<times> contest_entry list \<times> candidate_entry list \<times> raw_mark_row list" where
  "sf_read_raw zip_file nfiles =
     (case read_files nfiles 0 (filelist zip_file) (0, [], []) of
        (cvr_id, cvr_data, mark_data) \<Rightarrow>
          (cvr_data, ContestManifest zip_file, CandidateManifest zip_file, mark_data))"

subsection \<open>\<^verbatim>\<open>preprocess\<close>\<close>

record sf_cvr_row =
  sf_cvr_id :: int
  filename :: string

record sf_contest_row = contest_row +
  ExternalId :: int
  DistrictId :: int
  NumOfRanks :: int
  Disabled :: bool

record sf_candidate_row = candidate_row +
  cand_ExternalId :: string
  cand_contest_id :: int
  cand_Type :: string
  cand_Disabled :: bool

record sf_mark_row = mark_row +
  is_vote :: bool
  is_ambiguous :: bool

text \<open>
  The contest frame before the office columns are added: the casts of
  \<^verbatim>\<open>contest_dtypes\<close>, the \<^verbatim>\<open>ranked\<close> column computed from the cast
  \<^verbatim>\<open>NumOfRanks\<close>, \<^verbatim>\<open>vote_for\<close> overwritten by \<^verbatim>\<open>NumOfRanks\<close> on the ranked rows. The
  description stays beside the row until it has been standardized. The office id is
  filled in later.
\<close>

definition contest_frame_row :: "contest_entry \<Rightarrow> sf_contest_row \<times> string" where
  "contest_frame_row c =
     (let num_of_ranks = int8 (c_NumOfRanks c);
          is_ranked = (num_of_ranks > 1)
      in (\<lparr>contest_id = int16 (c_Id c),
           vote_for = (if is_ranked then num_of_ranks else int8 (c_VoteFor c)),
           ranked = is_ranked,
           office_id = 0,
           ExternalId = int32 (c_ExternalId c),
           DistrictId = int16 (c_DistrictId c),
           NumOfRanks = num_of_ranks,
           Disabled = c_Disabled c\<rparr>,
          c_Description c))"

text \<open>
  \<^verbatim>\<open>sf_ingest.standardize\<close> applied to every row, and the join of its result with the
  contest frame on the index \<^verbatim>\<open>contest_id\<close>: every standardized row is paired with
  every frame row that has its contest id.
\<close>

definition sf_standardize :: "transformer list \<Rightarrow> sf_contest_row \<times> string \<Rightarrow> error + office_key" where
  "sf_standardize transformers row = transform (snd row) transformers"

definition join_on_contest_id ::
  "(int \<times> office_key) list \<Rightarrow> (sf_contest_row \<times> string) list
    \<Rightarrow> (office_key \<times> sf_contest_row) list" where
  "join_on_contest_id left right =
     concat (map (\<lambda>(cid, key).
                    map (\<lambda>(r, description). (key, r))
                      (filter (\<lambda>(r, description). contest_id r = cid) right))
               left)"

type_synonym sf_tables =
  "sf_cvr_row list \<times> sf_contest_row list \<times> office_row list \<times> sf_candidate_row list
    \<times> sf_mark_row list"

text \<open>
  \<^verbatim>\<open>preprocess\<close>. \<^verbatim>\<open>astype\<close> with a dictionary of columns raises \<^verbatim>\<open>KeyError\<close> on a
  frame normalized from an empty manifest, which has no columns. The contest and candidate
  frames are sorted by their index, the mark frame by (cvr_id, contest_id, rank).
\<close>

definition sf_preprocess ::
  "transformer list
    \<Rightarrow> (int \<times> string) list \<times> contest_entry list \<times> candidate_entry list \<times> raw_mark_row list
    \<Rightarrow> error + sf_tables" where
  "sf_preprocess transformers data =
     (case data of (cvr_data, contest_data, candidate_data, mark_data) \<Rightarrow>
        (let df_cvr = map (\<lambda>(i, f). \<lparr>sf_cvr_id = int32 i, filename = f\<rparr>) cvr_data
         in if contest_data = [] then Inl KeyError
            else
              (let df_contest0 =
                     sort_key (\<lambda>(r, description). contest_id r)
                       (map contest_frame_row contest_data)
               in case traverse (sf_standardize transformers) df_contest0 of
                    Inl e \<Rightarrow> Inl e
                  | Inr std \<Rightarrow>
                      (let joined =
                             join_on_contest_id
                               (zip (map (\<lambda>(r, description). contest_id r) df_contest0) std)
                               df_contest0;
                           keys = map fst joined;
                           df_contest =
                             map (\<lambda>((key, r), oid). r\<lparr>office_id := oid\<rparr>)
                               (zip joined (office_ids keys));
                           df_office = office_table keys
                       in if candidate_data = [] then Inl KeyError
                          else
                            (let df_candidate =
                                   sort_key candidate_id
                                     (map (\<lambda>k. \<lparr>candidate_id = int16 (k_Id k),
                                                 cand_name = Some (k_Description k),
                                                 cand_party = None,
                                                 cand_ExternalId = k_ExternalId k,
                                                 cand_contest_id = int16 (k_ContestId k),
                                                 cand_Type = k_Type k,
                                                 cand_Disabled = k_Disabled k\<rparr>)
                                        candidate_data);
                                 df_mark =
                                   sort_key (\<lambda>m. (m_cvr_id m, m_contest_id m, m_rank m))
                                     (map (\<lambda>(i, contest, candidate, rank, vote, ambiguous).
                                             \<lparr>m_cvr_id = int32 i,
                                              m_contest_id = int16 contest,
                                              m_rank = int8 rank,
                                              m_candidate_id = int16 candidate,
                                              is_vote = vote,
                                              is_ambiguous = ambiguous\<rparr>)
                                        mark_data)
                             in Inr (df_cvr, df_contest, df_office, df_candidate, df_mark))))))"

text \<open>
  \<^verbatim>\<open>preprocess_path\<close>. The tuple of \<^verbatim>\<open>preprocess\<close> is unpacked under the names
  (cvr, contest, candidate, office, mark) and passed on in that order, so \<^verbatim>\<open>write\<close>
  receives the tables in the order in which \<^verbatim>\<open>preprocess\<close> returned them.
\<close>

definition sf_preprocess_path ::
  "transformer list \<Rightarrow> archive \<Rightarrow> sf_tables list \<Rightarrow> nat option
    \<Rightarrow> (error + unit) \<times> sf_tables list" where
  "sf_preprocess_path transformers in_path out_path nfiles =
     (case sf_preprocess transformers (sf_read_raw in_path nfiles) of
        Inl e \<Rightarrow> (Inl e, out_path)
      | Inr (df_cvr, df_contest, df_candidate, df_office, df_mark) \<Rightarrow>
          (Inr (), write_tables (df_cvr, df_contest, df_candidate, df_office, df_mark) out_path))"

section \<open>Sample inputs\<close>

text \<open>
  Small inputs on which the functions are evaluated below. The export writes the first
  five cells of a row as \<^verbatim>\<open>="text"\<close>. The sample frame has one contest with two
  candidates and a write-in column; the sample archive has two contests that share an
  office, one candidate of type \<^verbatim>\<open>WriteIn\<close>, and two ballot files after a manifest entry.
\<close>

definition quoted :: "string \<Rightarrow> string" where
  "quoted s = ''='' @ [CHR 0x22] @ s @ [CHR 0x22]"

definition sample_row :: "string \<Rightarrow> string \<Rightarrow> raw_row" where
  "sample_row number imprinted =
     \<lparr>CvrNumber = Some (quoted number), TabulatorNum = Some (quoted ''5''),
      BatchId = Some (quoted ''12''), RecordId = Some (quoted ''7''),
      ImprintedId = Some (quoted imprinted), CountingGroup = Some ''Mail'',
      PrecinctPortion = Some ''007 (7-2)'', BallotType = Some ''Vote Center (Vote Center)''\<rparr>"

definition sample_frame :: "raw_row list \<Rightarrow> raw_frame" where
  "sample_frame rows =
     \<lparr>id_rows = rows,
      mark_columns =
        [((''Governor (Vote For=1)'', ''Bob'', ''DEM''), [Some 1, None]),
         ((''Governor (Vote For=1)'', ''Alice'', ''Unnamed: 9_level_2''), [None, Some 1]),
         ((''Governor (Vote For=1)'', ''Write-in'', ''Unnamed: 10_level_2''), [Some 2, None])]\<rparr>"

definition sample_archive :: archive where
  "sample_archive =
     \<lparr>ContestManifest =
        [\<lparr>c_Id = 2, c_ExternalId = 20, c_DistrictId = 1, c_VoteFor = 1, c_NumOfRanks = 3,
          c_Disabled = False, c_Description = ''Governor''\<rparr>,
         \<lparr>c_Id = 1, c_ExternalId = 10, c_DistrictId = 1, c_VoteFor = 2, c_NumOfRanks = 0,
          c_Disabled = False, c_Description = ''Governor''\<rparr>],
      CandidateManifest =
        [\<lparr>k_Id = 7, k_ExternalId = ''W1'', k_ContestId = 1, k_Type = ''WriteIn'',
          k_Disabled = False, k_Description = ''Write-in''\<rparr>],
      filelist =
        [(''ContestManifest.json'', []),
         (''CvrExport_1.json'',
            [[[\<lparr>cc_Id = 9, Marks = [\<lparr>CandidateId = 7, Rank = 1, IsVote = True,
                                       IsAmbiguous = False\<rparr>]\<rparr>],
              []]]),
         (''CvrExport_2.json'', [[[]], [[]]])]\<rparr>"

text \<open>
  The invariant of the reading loop: the ballot rows read so far are numbered
  \<open>0, 1, ...\<close> in order, and the counter is the next number.
\<close>

definition numbered :: "read_state \<Rightarrow> bool" where
  "numbered st =
     (case st of (cvr_id, cvr_data, mark_data) \<Rightarrow>
        cvr_id = int (length cvr_data) \<and> map fst cvr_data = map int [0 ..< length cvr_data])"

(*PROPERTIES*)
section \<open>Properties of the matcher\<close>

lemma first_some_None_iff: "first_some f xs = None \<longleftrightarrow> (\<forall>x\<in>set xs. f x = None)"
  by (induction xs) (auto split: option.splits)

lemma first_some_SomeD: "first_some f xs = Some y \<Longrightarrow> \<exists>x\<in>set xs. f x = Some y"
  by (induction xs) (auto split: option.splits)

lemma first_some_skip:
  "\<forall>x\<in>set as. f x = None \<Longrightarrow> first_some f (as @ bs) = first_some f bs"
  by (induction as) auto

lemma take_takeWhile_prefix:
  "k \<le> length (takeWhile P xs) \<Longrightarrow> take k xs = take k (takeWhile P xs)"
proof (induction xs arbitrary: k)
  case Nil
  then show ?case by simp
next
  case (Cons x xs)
  then show ?case by (cases k) (auto split: if_splits)
qed

lemma take_within_takeWhile:
  assumes "k \<le> length (takeWhile P xs)"
  shows "\<forall>x\<in>set (take k xs). P x"
proof -
  have "set (take k xs) \<subseteq> set (takeWhile P xs)"
    using take_takeWhile_prefix [OF assms] by (metis set_take_subset)
  then show ?thesis by (auto dest: set_takeWhileD)
qed

lemma upt_split: "m \<le> k \<Longrightarrow> k < n \<Longrightarrow> [m ..< n] = [m ..< k] @ k # [Suc k ..< n]"
  by (metis le_add_diff_inverse less_imp_le upt_add_eq_append upt_conv_Cons)

lemma match_Lit:
  "match_here (Lit l # r) s = Some (g, n) \<longleftrightarrow>
     (\<exists>n'. take (length l) s = l \<and> match_here r (drop (length l) s) = Some (g, n')
           \<and> n = length l + n')"
  by auto

lemma match_Eos:
  "match_here (Eos # r) s = Some (g, n) \<longleftrightarrow>
     (s = [] \<or> s = [CHR 0x0A]) \<and> match_here r s = Some (g, n)"
  by auto

lemma match_Grp_D:
  assumes "match_here (Grp p m # r) s = Some (g, n)"
  shows "\<exists>k g' n'. m \<le> k \<and> k \<le> length (takeWhile p s)
           \<and> match_here r (drop k s) = Some (g', n') \<and> g = take k s # g' \<and> n = k + n'"
proof -
  from assms obtain k where "k \<in> set (rev [m ..< Suc (length (takeWhile p s))])"
    and "map_option (\<lambda>(g, n). (take k s # g, k + n)) (match_here r (drop k s)) = Some (g, n)"
    by (auto dest!: first_some_SomeD simp del: upt_Suc)
  then show ?thesis by (auto simp del: upt_Suc)
qed

lemma match_Grp_hit:
  assumes "m \<le> k" and "k \<le> length (takeWhile p s)"
    and "\<forall>j. k < j \<and> j \<le> length (takeWhile p s) \<longrightarrow> match_here r (drop j s) = None"
    and "match_here r (drop k s) = Some (g', n')"
  shows "match_here (Grp p m # r) s = Some (take k s # g', k + n')"
proof -
  let ?L = "length (takeWhile p s)"
  let ?f = "\<lambda>k. map_option (\<lambda>(g, n). (take k s # g, k + n)) (match_here r (drop k s))"
  have "[m ..< Suc ?L] = [m ..< k] @ k # [Suc k ..< Suc ?L]"
    using assms(1,2) by (intro upt_split) auto
  then have "rev [m ..< Suc ?L] = rev [Suc k ..< Suc ?L] @ k # rev [m ..< k]"
    by simp
  moreover have "\<forall>j\<in>set (rev [Suc k ..< Suc ?L]). ?f j = None"
    using assms(3) by (auto simp del: upt_Suc)
  ultimately have "first_some ?f (rev [m ..< Suc ?L]) = first_some ?f (k # rev [m ..< k])"
    by (simp only: first_some_skip)
  also have "\<dots> = Some (take k s # g', k + n')"
    using assms(4) by simp
  finally show ?thesis by (simp del: upt_Suc)
qed

lemma match_nil: "match_here [] s = Some (g, n) \<longleftrightarrow> g = [] \<and> n = 0"
  by auto

declare match_here.simps [simp del]

lemma len5: "length '' Term'' = 5" by simp

lemma term_match_shape:
  assumes "match_here term_pattern u = Some (g, n)"
  shows "\<exists>t e. u = '', '' @ t @ '' Term'' @ e \<and> CHR '','' \<notin> set t
           \<and> (e = [] \<or> e = [CHR 0x0A]) \<and> g = [t] \<and> n = 7 + length t"
proof -
  let ?v = "drop 2 u"
  have len2: "length '', '' = 2" and len5: "length '' Term'' = 5" by simp_all
  from assms obtain n1 where pre: "take 2 u = '', ''"
    and m1: "match_here [Grp not_comma 0, Lit '' Term'', Eos] ?v = Some (g, n1)"
    and n: "n = 2 + n1"
    unfolding term_pattern_def match_Lit len2 by blast
  from match_Grp_D [OF m1] obtain k g2 n2 where
    k: "k \<le> length (takeWhile not_comma ?v)"
    and m2: "match_here [Lit '' Term'', Eos] (drop k ?v) = Some (g2, n2)"
    and g: "g = take k ?v # g2" and n1: "n1 = k + n2"
    by blast
  let ?w = "drop k ?v"
  from m2 have w: "take 5 ?w = '' Term''"
    and e: "drop 5 ?w = [] \<or> drop 5 ?w = [CHR 0x0A]"
    and g2: "g2 = []" and n2: "n2 = 5"
    unfolding match_Lit match_Eos match_nil len5 by auto
  have klen: "k \<le> length ?v" using k
    by (meson le_trans length_takeWhile_le)
  have "u = take 2 u @ take k ?v @ take 5 ?w @ drop 5 ?w"
    by (metis append_take_drop_id)
  then have "u = '', '' @ take k ?v @ '' Term'' @ drop 5 ?w"
    using pre w by simp
  moreover have "CHR '','' \<notin> set (take k ?v)"
    using take_within_takeWhile [OF k] by (auto simp: not_comma_def)
  moreover have "length (take k ?v) = k" using klen by simp
  ultimately show ?thesis using e g g2 n n1 n2
    by (intro exI [of _ "take k ?v"] exI [of _ "drop 5 ?w"]) auto
qed


lemma re_search_SomeD:
  assumes "re_search pat s = Some (i, g, e)"
  shows "i \<le> length s \<and> (\<exists>n. match_here pat (drop i s) = Some (g, n) \<and> e = i + n)"
proof -
  from assms obtain j where "j \<in> set [0 ..< Suc (length s)]"
    and "map_option (\<lambda>(g, n). (j, g, j + n)) (match_here pat (drop j s)) = Some (i, g, e)"
    unfolding re_search_def by (auto dest!: first_some_SomeD simp del: upt_Suc)
  then show ?thesis by (auto simp del: upt_Suc)
qed

lemma re_search_hit:
  assumes "i \<le> length s"
    and "\<forall>j<i. match_here pat (drop j s) = None"
    and "match_here pat (drop i s) = Some (g, n)"
  shows "re_search pat s = Some (i, g, i + n)"
proof -
  let ?f = "\<lambda>i. map_option (\<lambda>(g, n). (i, g, i + n)) (match_here pat (drop i s))"
  have "[0 ..< Suc (length s)] = [0 ..< i] @ i # [Suc i ..< Suc (length s)]"
    using assms(1) by (intro upt_split) auto
  moreover have "\<forall>j\<in>set [0 ..< i]. ?f j = None"
    using assms(2) by simp
  ultimately have "first_some ?f [0 ..< Suc (length s)]
      = first_some ?f (i # [Suc i ..< Suc (length s)])"
    by (simp only: first_some_skip)
  also have "\<dots> = Some (i, g, i + n)" using assms(3) by simp
  finally show ?thesis unfolding re_search_def .
qed

lemma match_Lit_short:
  assumes "length s < length l"
  shows "match_here (Lit l # r) s = None"
proof -
  have "length (take (length l) s) \<noteq> length l" using assms by simp
  then have "take (length l) s \<noteq> l" by metis
  then show ?thesis by (simp add: match_here.simps)
qed

lemma term_match_at_suffix_nl:
  assumes "CHR '','' \<notin> set t" and e: "e = [] \<or> e = [CHR 0x0A]"
  shows "match_here term_pattern ('', '' @ t @ '' Term'' @ e) = Some ([t], 7 + length t)"
proof -
  let ?v = "t @ '' Term'' @ e"
  have "takeWhile not_comma ?v = t @ takeWhile not_comma ('' Term'' @ e)"
    by (rule takeWhile_append2) (use assms(1) in \<open>auto simp: not_comma_def\<close>)
  then have tw: "length t \<le> length (takeWhile not_comma ?v)"
    by simp
  have rest: "match_here [Lit '' Term'', Eos] (drop (length t) ?v) = Some ([], 5)"
    using e by (auto simp: match_here.simps)
  have later: "\<forall>j. length t < j \<and> j \<le> length (takeWhile not_comma ?v)
      \<longrightarrow> match_here [Lit '' Term'', Eos] (drop j ?v) = None"
  proof (intro allI impI)
    fix j assume j: "length t < j \<and> j \<le> length (takeWhile not_comma ?v)"
    then have "length t < j" by simp
    define d where "d = j - Suc (length t)"
    have d: "j = length t + Suc d" using \<open>length t < j\<close> by (simp add: d_def)
    have "drop j ?v = drop (Suc d) ('' Term'' @ e)" by (simp add: d)
    moreover have "match_here [Lit '' Term'', Eos] (drop (Suc d) ('' Term'' @ e)) = None"
    proof (cases "d = 0")
      case True
      then show ?thesis using e by (auto simp: match_here.simps)
    next
      case False
      then have "length (drop (Suc d) ('' Term'' @ e)) < length '' Term''" using e by auto
      then show ?thesis by (rule match_Lit_short)
    qed
    ultimately show "match_here [Lit '' Term'', Eos] (drop j ?v) = None" by simp
  qed
  have "match_here [Grp not_comma 0, Lit '' Term'', Eos] ?v
      = Some (take (length t) ?v # [], length t + 5)"
    by (rule match_Grp_hit [OF _ tw later rest]) simp
  then show ?thesis
    by (simp add: term_pattern_def match_here.simps(2))
qed

lemma term_no_earlier_match_nl:
  assumes t: "CHR '','' \<notin> set t" and j: "j < length p" and e: "e = [] \<or> e = [CHR 0x0A]"
  shows "match_here term_pattern (drop j (p @ '', '' @ t @ '' Term'' @ e)) = None"
proof (rule ccontr)
  assume "match_here term_pattern (drop j (p @ '', '' @ t @ '' Term'' @ e)) \<noteq> None"
  then obtain g n where
    "match_here term_pattern (drop j (p @ '', '' @ t @ '' Term'' @ e)) = Some (g, n)"
    by auto
  from term_match_shape [OF this] obtain t' e' where
    eq: "drop j (p @ '', '' @ t @ '' Term'' @ e) = '', '' @ t' @ '' Term'' @ e'"
    and t': "CHR '','' \<notin> set t'" and e': "e' = [] \<or> e' = [CHR 0x0A]"
    by blast
  define q where "q = drop j p"
  have q: "q \<noteq> []" using j by (simp add: q_def)
  have eq': "(q @ '', '' @ t) @ '' Term'' @ e = ('', '' @ t') @ '' Term'' @ e'"
    using eq j by (simp add: q_def)
  have "e' = e"
  proof (rule ccontr)
    assume ne: "e' \<noteq> e"
    from eq' have "last ((q @ '', '' @ t) @ '' Term'' @ e) = last (('', '' @ t') @ '' Term'' @ e')"
      by simp
    with ne e e' show False by auto
  qed
  with eq' have core: "q @ '', '' @ t = '', '' @ t'" by simp
  show False
  proof (cases q)
    case Nil
    with q show False by simp
  next
    case (Cons c q1)
    show False
    proof (cases q1)
      case Nil
      with Cons core show False by simp
    next
      case (Cons d q2)
      with \<open>q = c # q1\<close> core have "t' = q2 @ '', '' @ t" by simp
      with t' show False by simp
    qed
  qed
qed

lemma parse_term_suffix_nl:
  assumes "CHR '','' \<notin> set t" and "e = [] \<or> e = [CHR 0x0A]"
  shows "parse_term (p @ '', '' @ t @ '' Term'' @ e) = (t, p)"
proof -
  let ?s = "p @ '', '' @ t @ '' Term'' @ e"
  have "re_search term_pattern ?s = Some (length p, [t], length p + (7 + length t))"
  proof (rule re_search_hit)
    show "length p \<le> length ?s" by simp
    show "\<forall>j<length p. match_here term_pattern (drop j ?s) = None"
      using term_no_earlier_match_nl [OF assms(1) _ assms(2)] by blast
    show "match_here term_pattern (drop (length p) ?s) = Some ([t], 7 + length t)"
      using term_match_at_suffix_nl [OF assms] by simp
  qed
  then show ?thesis by (simp add: parse_term_def)
qed

lemma parse_term_no_match:
  assumes "\<not> (\<exists>p t e. s = p @ '', '' @ t @ '' Term'' @ e \<and> CHR '','' \<notin> set t
              \<and> (e = [] \<or> e = [CHR 0x0A]))"
  shows "parse_term s = (''Full'', s)"
proof -
  have "re_search term_pattern s = None"
  proof (rule ccontr)
    assume "re_search term_pattern s \<noteq> None"
    then obtain i g e where "re_search term_pattern s = Some (i, g, e)"
      by (cases "re_search term_pattern s") auto
    from re_search_SomeD [OF this] obtain n where
      "match_here term_pattern (drop i s) = Some (g, n)" by blast
    from term_match_shape [OF this] obtain t e' where
      d: "drop i s = '', '' @ t @ '' Term'' @ e'" and e': "e' = [] \<or> e' = [CHR 0x0A]"
      and t: "CHR '','' \<notin> set t"
      by blast
    have "s = take i s @ '', '' @ t @ '' Term'' @ e'"
      using d by (metis append_take_drop_id)
    with e' t assms show False by blast
  qed
  then show ?thesis by (simp add: parse_term_def)
qed

lemma standardize_InrD:
  assumes "standardize ts c = Inr (l, j, office, d, tm, v)"
  shows "\<exists>c1. parse_vote_for (collapse_spaces c) = Inr (v, c1)
           \<and> tm = fst (parse_term c1)
           \<and> transform (snd (parse_term c1)) ts = Inr (l, j, office, d)"
  using assms unfolding standardize_def
  by (auto split: sum.splits prod.splits)

lemma standardize_city_council:
  "standardize ts ''City Council, Short Term (Vote For=1)''
     = (case transform ''City Council'' ts of
          Inl e \<Rightarrow> Inl e
        | Inr (l, j, office, d) \<Rightarrow> Inr (l, j, office, d, ''Short'', 1))"
proof -
  have 1: "collapse_spaces ''City Council, Short Term (Vote For=1)''
      = ''City Council, Short Term (Vote For=1)''" by code_simp
  have 2: "parse_vote_for ''City Council, Short Term (Vote For=1)''
      = Inr (1, ''City Council, Short Term'')" by code_simp
  have 3: "parse_term ''City Council, Short Term'' = (''Short'', ''City Council'')"
    by code_simp
  show ?thesis by (simp add: standardize_def 1 2 3)
qed









section \<open>The standardization pipeline\<close>

text \<open>
  C3. The claim: the first step of \<open>standardize\<close> leaves no two adjacent spaces. The code
  is one left-to-right pass of \<^verbatim>\<open>replace("  ", " ")\<close>, which shortens a run of three
  spaces to two: the description below keeps a double space after the first step, and that
  string, double space included, is what reaches the transformer chain.
\<close>

theorem collapse_spaces_three_spaces:
  "collapse_spaces ''City   Council (Vote For=1)'' = ''City  Council (Vote For=1)''
   \<and> standardize ts ''City   Council (Vote For=1)''
       = (case transform ''City  Council'' ts of
            Inl e \<Rightarrow> Inl e
          | Inr (l, j, office, d) \<Rightarrow> Inr (l, j, office, d, ''Full'', 1))"
proof -
  have 1: "collapse_spaces ''City   Council (Vote For=1)'' = ''City  Council (Vote For=1)''"
    by code_simp
  have 2: "parse_vote_for ''City  Council (Vote For=1)'' = Inr (1, ''City  Council'')"
    by code_simp
  have 3: "parse_term ''City  Council'' = (''Full'', ''City  Council'')"
    by code_simp
  show ?thesis by (simp add: standardize_def 1 2 3)
qed








text \<open>
  C5, as stated, fails in its second half: \<^verbatim>\<open>$\<close> also matches before a final newline,
  so a string that does not end with \<^verbatim>\<open>, <Term> Term\<close> can still yield a term other
  than \<^verbatim>\<open>Full\<close>.
\<close>

theorem term_suffix_before_newline:
  "\<not> suffix '' Term'' (''Governor, Short Term'' @ [CHR 0x0A])
   \<and> parse_term (''Governor, Short Term'' @ [CHR 0x0A]) = (''Short'', ''Governor'')
   \<and> standardize [governor_transformer]
        (''Governor, Short Term'' @ [CHR 0x0A] @ '' (Vote For=1)'')
       = Inr (''State'', ''California'', ''Governor'', ''Statewide'', ''Short'', 1)"
proof -
  have "\<not> suffix '' Term'' (''Governor, Short Term'' @ [CHR 0x0A])"
    by (simp add: suffix_def)
  moreover have "parse_term (''Governor, Short Term'' @ [CHR 0x0A]) = (''Short'', ''Governor'')"
    by code_simp
  moreover have "standardize [governor_transformer]
        (''Governor, Short Term'' @ [CHR 0x0A] @ '' (Vote For=1)'')
       = Inr (''State'', ''California'', ''Governor'', ''Statewide'', ''Short'', 1)"
    by code_simp
  ultimately show ?thesis by blast
qed

text \<open>
  C5, amended: after the vote-for suffix is stripped, if the remaining string ends with
  \<^verbatim>\<open>, <Term> Term\<close>, where \<^verbatim>\<open><Term>\<close> has no comma, optionally followed by one final
  newline, then \<^verbatim>\<open><Term>\<close> is the term label and everything from that comma on is
  stripped before the transformer chain runs; if the string has no such ending the term is
  \<^verbatim>\<open>Full\<close> and nothing is stripped. \<^verbatim>\<open>City Council, Short Term\<close> yields
  \<^verbatim>\<open>Short\<close>, and the chain sees \<^verbatim>\<open>City Council\<close>.
\<close>

theorem parse_term_characterised:
  "(CHR '','' \<notin> set t \<and> (e = [] \<or> e = [CHR 0x0A])
      \<longrightarrow> parse_term (p @ '', '' @ t @ '' Term'' @ e) = (t, p))
   \<and> (\<not> (\<exists>p t e. s = p @ '', '' @ t @ '' Term'' @ e \<and> CHR '','' \<notin> set t
              \<and> (e = [] \<or> e = [CHR 0x0A]))
      \<longrightarrow> parse_term s = (''Full'', s))
   \<and> (standardize ts c = Inr (level, jurisdiction, office, district, tm, votes)
      \<longrightarrow> (\<exists>c1. parse_vote_for (collapse_spaces c) = Inr (votes, c1)
             \<and> tm = fst (parse_term c1)
             \<and> transform (snd (parse_term c1)) ts
                 = Inr (level, jurisdiction, office, district)))
   \<and> standardize ts ''City Council, Short Term (Vote For=1)''
       = (case transform ''City Council'' ts of
            Inl err \<Rightarrow> Inl err
          | Inr (l, j, off, d) \<Rightarrow> Inr (l, j, off, d, ''Short'', 1))"
  using parse_term_suffix_nl [of t e p] parse_term_no_match [of s]
    standardize_InrD [of ts c level jurisdiction office district tm votes]
    standardize_city_council [of ts]
  by blast

theorem parse_term_characterised_witness:
  "parse_term (''City Council'' @ '', '' @ ''Short'' @ '' Term'' @ []) = (''Short'', ''City Council'')
   \<and> parse_term ''Governor'' = (''Full'', ''Governor'')
   \<and> standardize [governor_transformer] ''Governor, Short Term (Vote For=1)''
       = Inr (''State'', ''California'', ''Governor'', ''Statewide'', ''Short'', 1)
   \<and> (\<exists>c1. parse_vote_for (collapse_spaces ''Governor, Short Term (Vote For=1)'') = Inr (1, c1)
          \<and> ''Short'' = fst (parse_term c1)
          \<and> transform (snd (parse_term c1)) [governor_transformer]
               = Inr (''State'', ''California'', ''Governor'', ''Statewide''))"
proof -
  have h1: "CHR '','' \<notin> set ''Short'' \<and> ([] = [] \<or> [] = [CHR 0x0A])" by simp
  have h2: "\<not> (\<exists>p t e. ''Governor'' = p @ '', '' @ t @ '' Term'' @ e \<and> CHR '','' \<notin> set t
              \<and> (e = [] \<or> e = [CHR 0x0A]))"
  proof
    assume "\<exists>p t e. ''Governor'' = p @ '', '' @ t @ '' Term'' @ e \<and> CHR '','' \<notin> set t
              \<and> (e = [] \<or> e = [CHR 0x0A])"
    then obtain p t e where "''Governor'' = p @ '', '' @ t @ '' Term'' @ e" by blast
    then have "set ''Governor'' = set (p @ '', '' @ t @ '' Term'' @ e)" by simp
    then show False by auto
  qed
  have h3: "standardize [governor_transformer] ''Governor, Short Term (Vote For=1)''
       = Inr (''State'', ''California'', ''Governor'', ''Statewide'', ''Short'', 1)"
    by code_simp
  from parse_term_characterised [of "''Short''" "[]" "''City Council''" "''Governor''"
      "[governor_transformer]" "''Governor, Short Term (Vote For=1)''"
      "''State''" "''California''" "''Governor''" "''Statewide''" "''Short''" 1]
  show ?thesis using h1 h2 h3 by blast
qed

section \<open>Properties of the table operations\<close>

lemma traverse_InrD:
  "traverse f xs = Inr ys \<Longrightarrow> map Inr ys = map f xs"
  by (induction xs arbitrary: ys) (auto split: sum.splits)

lemma traverse_length: "traverse f xs = Inr ys \<Longrightarrow> length ys = length xs"
  by (induction xs arbitrary: ys) (auto split: sum.splits)



lemma traverse_fails:
  "x \<in> set xs \<Longrightarrow> f x = Inl e \<Longrightarrow> \<exists>e'. traverse f xs = Inl e'"
  by (induction xs) (auto split: sum.splits)


lemma wrap_int_id:
  assumes "0 < w" and "- (2 ^ (w - 1)) \<le> x" and "x < 2 ^ (w - 1)"
  shows "wrap_int w x = x"
proof -
  have "(2::int) ^ w = 2 * 2 ^ (w - 1)"
    using assms(1) by (cases w) simp_all
  then have "(x + 2 ^ (w - 1)) mod 2 ^ w = x + 2 ^ (w - 1)"
    using assms(2,3) by (intro mod_pos_pos_trivial) simp_all
  then show ?thesis by (simp add: wrap_int_def)
qed

lemma int16_id: "0 \<le> x \<Longrightarrow> x < 32768 \<Longrightarrow> int16 x = x"
  unfolding int16_def by (rule wrap_int_id) simp_all

lemma int32_id: "0 \<le> x \<Longrightarrow> x < 2147483648 \<Longrightarrow> int32 x = x"
  unfolding int32_def by (rule wrap_int_id) simp_all

lemma position_less: "x \<in> set xs \<Longrightarrow> position x xs < length xs"
  by (induction xs) auto

lemma position_nth: "x \<in> set xs \<Longrightarrow> xs ! position x xs = x"
  by (induction xs) auto

lemma position_append: "x \<in> set xs \<Longrightarrow> position x (xs @ ys) = position x xs"
  by (induction xs) auto

lemma position_append_new:
  "x \<notin> set xs \<Longrightarrow> position x (xs @ [x]) = length xs"
  by (induction xs) auto

lemma position_take: "x \<notin> set (take (position x xs) xs)"
  by (induction xs) auto


lemma factorize_from_length: "length (factorize_from seen xs) = length xs"
  by (induction xs arbitrary: seen) auto

lemma factorize_length: "length (factorize xs) = length xs"
  by (simp add: factorize_def factorize_from_length)

lemma factorize_from_nth:
  assumes "distinct seen" and "i < length xs"
  shows "factorize_from seen xs ! i =
     (if xs ! i \<in> set seen then position (xs ! i) seen
      else length seen + card (set (take (position (xs ! i) xs) xs) - set seen))"
  using assms
proof (induction xs arbitrary: seen i)
  case Nil
  then show ?case by simp
next
  case (Cons x xs)
  show ?case
  proof (cases i)
    case 0
    then show ?thesis by simp
  next
    case (Suc k)
    with Cons.prems have k: "k < length xs" by simp
    let ?y = "xs ! k"
    let ?S = "set (take (position ?y xs) xs)"
    show ?thesis
    proof (cases "x \<in> set seen")
      case True
      have "factorize_from seen (x # xs) ! i = factorize_from seen xs ! k"
        using True Suc by simp
      also have "\<dots> = (if ?y \<in> set seen then position ?y seen
          else length seen + card (?S - set seen))"
        using Cons.IH [OF Cons.prems(1) k] .
      also have "\<dots> = (if ?y \<in> set seen then position ?y seen
          else length seen
            + card (set (take (position ?y (x # xs)) (x # xs)) - set seen))"
      proof (cases "?y \<in> set seen")
        case True
        then show ?thesis by simp
      next
        case False
        with \<open>x \<in> set seen\<close> have "?y \<noteq> x" by blast
        then have "position ?y (x # xs) = Suc (position ?y xs)" by simp
        then have "set (take (position ?y (x # xs)) (x # xs)) = insert x ?S" by simp
        moreover have "insert x ?S - set seen = ?S - set seen"
          using \<open>x \<in> set seen\<close> by blast
        ultimately have "set (take (position ?y (x # xs)) (x # xs)) - set seen = ?S - set seen"
          by (simp only:)
        then show ?thesis using False by (simp only: if_False)
      qed
      finally show ?thesis using Suc by simp
    next
      case False
      let ?seen' = "seen @ [x]"
      have d': "distinct ?seen'" using Cons.prems(1) False by simp
      have "factorize_from seen (x # xs) ! i = factorize_from ?seen' xs ! k"
        using False Suc by simp
      also have "\<dots> = (if ?y \<in> set ?seen' then position ?y ?seen'
          else length ?seen' + card (?S - set ?seen'))"
        using Cons.IH [OF d' k] .
      also have "\<dots> = (if ?y \<in> set seen then position ?y seen
          else length seen
            + card (set (take (position ?y (x # xs)) (x # xs)) - set seen))"
      proof -
        consider (old) "?y \<in> set seen" | (same) "?y \<notin> set seen" "?y = x"
          | (new) "?y \<notin> set seen" "?y \<noteq> x" by blast
        then show ?thesis
        proof cases
          case old
          then show ?thesis by (simp add: position_append)
        next
          case same
          then show ?thesis using False by (simp add: position_append_new)
        next
          case new
          have fin: "finite (?S - set seen)" by simp
          have eq1: "?S - set ?seen' = (?S - set seen) - {x}" by auto
          have "position ?y (x # xs) = Suc (position ?y xs)" using new(2) by simp
          then have "set (take (position ?y (x # xs)) (x # xs)) = insert x ?S" by simp
          moreover have "insert x ?S - set seen = insert x (?S - set seen)"
            using False by blast
          ultimately have eq2: "set (take (position ?y (x # xs)) (x # xs)) - set seen
              = insert x (?S - set seen)"
            by (simp only:)
          have "Suc (card ((?S - set seen) - {x})) = card (insert x (?S - set seen))"
          proof (cases "x \<in> ?S - set seen")
            case True
            then have "insert x (?S - set seen) = ?S - set seen" by blast
            then show ?thesis using card_Suc_Diff1 [OF fin True] by (simp only:)
          next
            case False
            then have "(?S - set seen) - {x} = ?S - set seen" by blast
            then show ?thesis using card_insert_disjoint [OF fin False] by (simp only:)
          qed
          then have "length ?seen' + card (?S - set ?seen')
              = length seen + card (set (take (position ?y (x # xs)) (x # xs)) - set seen)"
            unfolding eq1 eq2 by simp
          moreover have "?y \<notin> set ?seen'" using new by simp
          ultimately show ?thesis using new(1) by (simp only: if_False)
        qed
      qed
      finally show ?thesis using Suc by simp
    qed
  qed
qed

lemma factorize_first_seen:
  assumes "i < length xs"
  shows "factorize xs ! i = card (set (take (position (xs ! i) xs) xs))"
  using factorize_from_nth [of "[]" i xs] assms by (simp add: factorize_def)

lemma drop_duplicates_from_set: "set (drop_duplicates_from seen xs) = set xs - set seen"
  by (induction xs arbitrary: seen) auto

lemma set_drop_duplicates: "set (drop_duplicates xs) = set xs"
  by (simp add: drop_duplicates_def drop_duplicates_from_set)

section \<open>The identity checks\<close>




lemma check_and_clean_InrD:
  assumes "check_and_clean_id_invariants df_id = Inr rows"
  shows "list_all (\<lambda>(i, r). imprinted_id_ok r) df_id
    \<and> list_all (\<lambda>(i, r). ballot_type_ok r) df_id
    \<and> list_all (\<lambda>(i, r). precinct_ok r) df_id
    \<and> length rows = length df_id
    \<and> map scc_cvr_id rows = map fst df_id"
proof -
  from assms obtain tab_batch recs where
    ok: "list_all (\<lambda>(i, r). imprinted_id_ok r) df_id"
      "list_all (\<lambda>(i, r). ballot_type_ok r) df_id"
      "list_all (\<lambda>(i, r). precinct_ok r) df_id"
    and tb: "length tab_batch = length df_id" and rc: "length recs = length df_id"
    and rows: "rows = map clean_row (zip df_id (zip tab_batch recs))"
    unfolding check_and_clean_id_invariants_def
    by (auto split: if_splits sum.splits dest: traverse_length)
  have len: "length rows = length df_id" using rows tb rc by simp
  have "map scc_cvr_id rows = map fst df_id"
  proof (rule nth_equalityI)
    show "length (map scc_cvr_id rows) = length (map fst df_id)" using len by simp
    fix n assume "n < length (map scc_cvr_id rows)"
    then have n: "n < length df_id" using len by simp
    then have "rows ! n = clean_row (df_id ! n, tab_batch ! n, recs ! n)"
      using rows tb rc by simp
    then have "scc_cvr_id (rows ! n) = fst (df_id ! n)"
      by (simp add: clean_row_def split: prod.splits)
    then show "map scc_cvr_id rows ! n = map fst df_id ! n" using n len by simp
  qed
  with ok len show ?thesis by simp
qed







section \<open>Reading the ballot documents\<close>

lemma read_card_numbered: "numbered st \<Longrightarrow> numbered (read_card f c st)"
  by (cases st) (simp add: numbered_def read_card_def)

lemma fold_read_card_numbered: "numbered st \<Longrightarrow> numbered (fold (read_card f) cs st)"
  by (induction cs arbitrary: st) (simp_all add: read_card_numbered)

lemma read_file_numbered: "numbered st \<Longrightarrow> numbered (read_file f ss st)"
  unfolding read_file_def
  by (induction ss arbitrary: st) (simp_all add: fold_read_card_numbered)

lemma read_files_numbered: "numbered st \<Longrightarrow> numbered (read_files nfiles idx files st)"
  by (induction nfiles idx files st rule: read_files.induct)
    (simp_all add: read_file_numbered)

lemma sf_read_raw_ids:
  "map fst (fst (sf_read_raw zip_file nfiles))
     = map int [0 ..< length (fst (sf_read_raw zip_file nfiles))]"
proof -
  have "numbered (read_files nfiles 0 (filelist zip_file) (0, [], []))"
    by (rule read_files_numbered) (simp add: numbered_def)
  then show ?thesis
    by (auto simp: sf_read_raw_def numbered_def split: prod.splits)
qed

lemma sf_preprocess_cvr:
  assumes "sf_preprocess ts (cvr_data, contest_data, candidate_data, mark_data)
      = Inr (df_cvr, rest)"
  shows "map sf_cvr_id df_cvr = map (\<lambda>(i, f). int32 i) cvr_data"
  using assms unfolding sf_preprocess_def
  by (auto simp: Let_def split: if_splits sum.splits)

lemma distinct_map_int_upt: "distinct (map int [0 ..< n])"
  by (simp add: distinct_map inj_on_def)

lemma sf_cvr_ids_dense:
  assumes "sf_preprocess ts (sf_read_raw zip_file nfiles) = Inr (df_cvr, rest)"
    and "length df_cvr \<le> 2147483648"
  shows "map sf_cvr_id df_cvr = map int [0 ..< length df_cvr]"
proof -
  obtain cvr_data contest_data candidate_data mark_data where
    rr: "sf_read_raw zip_file nfiles = (cvr_data, contest_data, candidate_data, mark_data)"
    by (cases "sf_read_raw zip_file nfiles") auto
  from assms(1) have ids: "map sf_cvr_id df_cvr = map (\<lambda>(i, f). int32 i) cvr_data"
    unfolding rr by (rule sf_preprocess_cvr)
  then have len: "length df_cvr = length cvr_data"
    by (metis length_map)
  have num: "map fst cvr_data = map int [0 ..< length cvr_data]"
    using sf_read_raw_ids [of zip_file nfiles] by (simp add: rr)
  have "map (\<lambda>(i, f). int32 i) cvr_data = map int32 (map fst cvr_data)"
    by (simp add: case_prod_beta comp_def)
  also have "\<dots> = map int32 (map int [0 ..< length cvr_data])"
    by (simp only: num)
  also have "\<dots> = map int [0 ..< length cvr_data]"
    using assms(2) len by (simp add: int32_id)
  finally show ?thesis using ids len by simp
qed

lemma reformat_strings_CvrNumber:
  "map CvrNumber (id_rows (reformat_strings df)) = map (\<lambda>r. reformat (CvrNumber r)) (id_rows df)"
  by (simp add: reformat_strings_def comp_def)

lemma preprocess_InrD:
  assumes "preprocess ts df0 = Inr (df_cvr, df_contest, df_office, df_candidate, df_mark)"
  shows "\<exists>index cols df1 df2.
      set_index (reformat_strings df0) = Inr index
    \<and> check_and_clean_id_invariants (split_cvr index (reformat_strings df0)) = Inr df_cvr
    \<and> update_column_index (mark_columns (reformat_strings df0)) = Inr cols
    \<and> split_contest ts (tidy index cols) = Inr (df_contest, df_office, df1)
    \<and> split_candidate df1 = Inr (df_candidate, df2)
    \<and> df_mark = mark_table df2"
  using assms unfolding preprocess_def
  by (auto simp: Let_def split: sum.splits prod.splits)

lemma set_index_length: "set_index df = Inr index \<Longrightarrow> length index = length (id_rows df)"
  unfolding set_index_def by (rule traverse_length)

lemma preprocess_cvr_ids:
  assumes "preprocess ts df = Inr (df_cvr, rest)"
  shows "map (\<lambda>r. Inr (scc_cvr_id r)) df_cvr
      = map (\<lambda>r. astype_int 32 (reformat (CvrNumber r))) (id_rows df)"
proof -
  obtain df_contest df_office df_candidate df_mark where
    rest: "rest = (df_contest, df_office, df_candidate, df_mark)"
    by (cases rest) auto
  from preprocess_InrD [OF assms [unfolded rest]] obtain index where
    si: "set_index (reformat_strings df) = Inr index"
    and cc: "check_and_clean_id_invariants (split_cvr index (reformat_strings df)) = Inr df_cvr"
    by blast
  let ?rows = "id_rows (reformat_strings df)"
  have len: "length index = length ?rows" using si by (rule set_index_length)
  have "map scc_cvr_id df_cvr = map fst (zip index ?rows)"
    using check_and_clean_InrD [OF cc] by (simp add: split_cvr_def)
  also have "\<dots> = index" using len by simp
  finally have ids: "map scc_cvr_id df_cvr = index" .
  have "map Inr index = map (\<lambda>r. astype_int 32 (CvrNumber r)) ?rows"
    using si unfolding set_index_def by (rule traverse_InrD)
  also have "\<dots> = map (astype_int 32) (map CvrNumber ?rows)" by simp
  also have "\<dots> = map (\<lambda>r. astype_int 32 (reformat (CvrNumber r))) (id_rows df)"
    by (simp only: reformat_strings_CvrNumber) simp
  finally have index: "map Inr index
      = map (\<lambda>r. astype_int 32 (reformat (CvrNumber r))) (id_rows df)" .
  have "map (\<lambda>r. Inr (scc_cvr_id r)) df_cvr = map Inr (map scc_cvr_id df_cvr)"
    by simp
  also have "\<dots> = map Inr index" by (simp only: ids)
  also note index
  finally show ?thesis .
qed

lemma not_isl_pair: "\<not> isl x \<Longrightarrow> x = Inr (fst (projr x), snd (projr x))"
  by (cases x) auto

text \<open>
  C8, as stated, fails for the wide spreadsheet: its ballot ids are not assigned, they
  are the numbers of the first column of the extract, and nothing makes them differ. Two
  rows carrying the same number give two ballots with the same id.
\<close>

theorem duplicate_ballot_ids:
  "(case preprocess [governor_transformer]
           (sample_frame [sample_row ''1'' [], sample_row ''1'' []])
    of Inl e \<Rightarrow> False
     | Inr (df_cvr, rest) \<Rightarrow> map scc_cvr_id df_cvr = [1, 1])"
  by code_simp

text \<open>
  C8, amended: in the nested path the cards are numbered \<open>0, 1, 2, ...\<close> in the order
  in which they are read, and these numbers are the ballot ids of the CvrRecord table,
  which are therefore unique (for an extract of at most \<open>2^31\<close> cards, the range of the
  \<^verbatim>\<open>np.int32\<close> index). In the wide-spreadsheet path the ballot ids are the numbers of
  the first column of the extract, in row order, cast to \<^verbatim>\<open>np.int32\<close>.
\<close>

theorem ballot_ids:
  "map fst (fst (sf_read_raw zip_file nfiles))
      = map int [0 ..< length (fst (sf_read_raw zip_file nfiles))]
   \<and> (sf_preprocess ts (sf_read_raw zip_file nfiles) = Inr (sf_cvr, sf_rest)
        \<and> length sf_cvr \<le> 2147483648
      \<longrightarrow> map sf_cvr_id sf_cvr = map int [0 ..< length sf_cvr]
          \<and> distinct (map sf_cvr_id sf_cvr))
   \<and> (preprocess ts df = Inr (df_cvr, rest)
      \<longrightarrow> map (\<lambda>r. Inr (scc_cvr_id r)) df_cvr
            = map (\<lambda>r. astype_int 32 (reformat (CvrNumber r))) (id_rows df))"
proof -
  have "distinct (map sf_cvr_id sf_cvr)"
    if "map sf_cvr_id sf_cvr = map int [0 ..< length sf_cvr]"
    using that distinct_map_int_upt [of "length sf_cvr"] by (simp only:)
  then show ?thesis
    using sf_read_raw_ids [of zip_file nfiles]
      sf_cvr_ids_dense [of ts zip_file nfiles sf_cvr sf_rest]
      preprocess_cvr_ids [of ts df df_cvr rest]
    by blast
qed

theorem ballot_ids_witness:
  "\<not> isl (sf_preprocess [governor_transformer] (sf_read_raw sample_archive None))
   \<and> map sf_cvr_id (fst (projr (sf_preprocess [governor_transformer]
        (sf_read_raw sample_archive None)))) = [0, 1, 2, 3]
   \<and> \<not> isl (preprocess [governor_transformer]
        (sample_frame [sample_row ''7'' [], sample_row ''3'' []]))
   \<and> map scc_cvr_id (fst (projr (preprocess [governor_transformer]
        (sample_frame [sample_row ''7'' [], sample_row ''3'' []])))) = [7, 3]"
proof -
  let ?sf = "sf_preprocess [governor_transformer] (sf_read_raw sample_archive None)"
  let ?scc = "preprocess [governor_transformer]
        (sample_frame [sample_row ''7'' [], sample_row ''3'' []])"
  have 1: "\<not> isl ?sf" by code_simp
  have 2: "length (fst (projr ?sf)) = 4" by code_simp
  have 3: "\<not> isl ?scc" by code_simp
  have 4: "map (\<lambda>r. astype_int 32 (reformat (CvrNumber r)))
      (id_rows (sample_frame [sample_row ''7'' [], sample_row ''3'' []]))
      = [Inr 7, Inr 3]" by code_simp
  have 5: "[0 ..< 4] = [0, 1, 2, 3]" by code_simp
  from ballot_ids [of sample_archive None "[governor_transformer]" "fst (projr ?sf)"
      "snd (projr ?sf)" "sample_frame [sample_row ''7'' [], sample_row ''3'' []]"
      "fst (projr ?scc)" "snd (projr ?scc)"]
    not_isl_pair [OF 1] not_isl_pair [OF 3]
  have a: "map sf_cvr_id (fst (projr ?sf)) = map int [0 ..< length (fst (projr ?sf))]"
    and b: "map (\<lambda>r. Inr (scc_cvr_id r)) (fst (projr ?scc))
      = map (\<lambda>r. astype_int 32 (reformat (CvrNumber r)))
          (id_rows (sample_frame [sample_row ''7'' [], sample_row ''3'' []]))"
    using 2 by auto
  from a have a': "map sf_cvr_id (fst (projr ?sf)) = [0, 1, 2, 3]"
    unfolding 2 5 by simp
  from b have "map Inr (map scc_cvr_id (fst (projr ?scc))) = (map Inr [7, 3] :: (error + int) list)"
    unfolding 4 by (simp add: comp_def)
  then have b': "map scc_cvr_id (fst (projr ?scc)) = [7, 3]"
    by (simp only: inj_map_eq_map [OF inj_Inr])
  from 1 3 a' b' show ?thesis by blast
qed

section \<open>The contest table of the nested path\<close>

lemma sf_preprocess_InrD:
  assumes "sf_preprocess ts data = Inr (df_cvr, df_contest, df_office, df_candidate, df_mark)"
  shows "\<exists>std joined.
      fst (snd data) \<noteq> []
    \<and> traverse (sf_standardize ts)
          (sort_key (\<lambda>(r, description). contest_id r)
             (map contest_frame_row (fst (snd data)))) = Inr std
    \<and> joined = join_on_contest_id
          (zip (map (\<lambda>(r, description). contest_id r)
                  (sort_key (\<lambda>(r, description). contest_id r)
                     (map contest_frame_row (fst (snd data))))) std)
          (sort_key (\<lambda>(r, description). contest_id r)
             (map contest_frame_row (fst (snd data))))
    \<and> df_contest = map (\<lambda>((key, r), oid). r\<lparr>office_id := oid\<rparr>)
          (zip joined (office_ids (map fst joined)))
    \<and> df_office = office_table (map fst joined)
    \<and> df_cvr = map (\<lambda>(i, f). \<lparr>sf_cvr_id = int32 i, filename = f\<rparr>) (fst data)"
  using assms unfolding sf_preprocess_def
  by (cases data) (auto simp: Let_def split: if_splits sum.splits)

lemma join_on_contest_id_right:
  "(key, r) \<in> set (join_on_contest_id left right) \<Longrightarrow> \<exists>d. (r, d) \<in> set right"
  unfolding join_on_contest_id_def by auto

lemma join_on_contest_id_covers:
  assumes "n < length right" and "length std = length right"
  shows "(std ! n, fst (right ! n))
      \<in> set (join_on_contest_id (zip (map (\<lambda>(r, description). contest_id r) right) std) right)"
proof -
  let ?left = "zip (map (\<lambda>(r, description). contest_id r) right) std"
  obtain r0 d0 where rd: "right ! n = (r0, d0)" by (cases "right ! n") auto
  have ln: "?left ! n = (contest_id r0, std ! n)"
    using assms rd by simp
  have nl: "n < length ?left" using assms by simp
  have l: "(contest_id r0, std ! n) \<in> set ?left"
    using nth_mem [OF nl] unfolding ln .
  have "(r0, d0) \<in> set right" using nth_mem [OF assms(1)] unfolding rd .
  then have "(r0, d0) \<in> set (filter (\<lambda>(r, description). contest_id r = contest_id r0) right)"
    by simp
  then have "(std ! n, r0) \<in> set (map (\<lambda>(r, description). (std ! n, r))
      (filter (\<lambda>(r, description). contest_id r = contest_id r0) right))"
    by force
  then have "(std ! n, r0) \<in> (\<lambda>(cid, key). set (map (\<lambda>(r, description). (key, r))
      (filter (\<lambda>(r, description). contest_id r = cid) right))) (contest_id r0, std ! n)"
    by simp
  with l have "(std ! n, r0) \<in> (\<Union>x\<in>set ?left. (\<lambda>(cid, key). set (map (\<lambda>(r, description). (key, r))
      (filter (\<lambda>(r, description). contest_id r = cid) right))) x)"
    by blast
  then have "(std ! n, r0) \<in> set (join_on_contest_id ?left right)"
    unfolding join_on_contest_id_def by (simp add: case_prod_beta)
  then show ?thesis by (simp add: rd)
qed

lemma office_ids_length: "length (office_ids keys) = length keys"
  by (simp add: office_ids_def factorize_length)

lemma contest_frame_row_fields:
  "contest_id (fst (contest_frame_row c)) = int16 (c_Id c)
   \<and> NumOfRanks (fst (contest_frame_row c)) = int8 (c_NumOfRanks c)
   \<and> ranked (fst (contest_frame_row c)) = (1 < int8 (c_NumOfRanks c))
   \<and> vote_for (fst (contest_frame_row c))
       = (if 1 < int8 (c_NumOfRanks c) then int8 (c_NumOfRanks c) else int8 (c_VoteFor c))"
  by (simp add: contest_frame_row_def Let_def)

lemma sf_contest_rows:
  assumes "sf_preprocess ts data = Inr (df_cvr, df_contest, df_office, df_candidate, df_mark)"
  shows "(\<forall>r\<in>set df_contest. \<exists>c\<in>set (fst (snd data)). \<exists>oid.
            r = (fst (contest_frame_row c))\<lparr>office_id := oid\<rparr>)
       \<and> (\<forall>c\<in>set (fst (snd data)). \<exists>r\<in>set df_contest. \<exists>oid.
            r = (fst (contest_frame_row c))\<lparr>office_id := oid\<rparr>)"
proof -
  let ?df0 = "sort_key (\<lambda>(r, description). contest_id r)
      (map contest_frame_row (fst (snd data)))"
  from sf_preprocess_InrD [OF assms] obtain std joined where
    std: "traverse (sf_standardize ts) ?df0 = Inr std"
    and joined: "joined = join_on_contest_id
          (zip (map (\<lambda>(r, description). contest_id r) ?df0) std) ?df0"
    and dc: "df_contest = map (\<lambda>((key, r), oid). r\<lparr>office_id := oid\<rparr>)
          (zip joined (office_ids (map fst joined)))"
    by blast
  have set0: "set ?df0 = contest_frame_row ` set (fst (snd data))" by simp
  have len: "length std = length ?df0" using std by (rule traverse_length)
  have lenz: "length (office_ids (map fst joined)) = length joined"
    by (simp add: office_ids_length)
  show ?thesis
  proof (intro conjI ballI)
    fix r assume "r \<in> set df_contest"
    then obtain key r0 oid where z: "((key, r0), oid) \<in> set (zip joined (office_ids (map fst joined)))"
      and r: "r = r0\<lparr>office_id := oid\<rparr>"
      unfolding dc by auto
    from z have "(key, r0) \<in> set joined" by (rule set_zip_leftD)
    then obtain d where "(r0, d) \<in> set ?df0"
      unfolding joined by (auto dest: join_on_contest_id_right)
    then obtain c where c: "c \<in> set (fst (snd data))" and "contest_frame_row c = (r0, d)"
      unfolding set0 by auto
    then have "r0 = fst (contest_frame_row c)" by simp
    with r c show "\<exists>c\<in>set (fst (snd data)). \<exists>oid. r = (fst (contest_frame_row c))\<lparr>office_id := oid\<rparr>"
      by blast
  next
    fix c assume "c \<in> set (fst (snd data))"
    then have "contest_frame_row c \<in> set ?df0" unfolding set0 by blast
    then obtain n where n: "n < length ?df0" and dn: "?df0 ! n = contest_frame_row c"
      by (metis in_set_conv_nth)
    have "(std ! n, fst (?df0 ! n)) \<in> set joined"
      unfolding joined using n len by (rule join_on_contest_id_covers)
    then obtain m where m: "m < length joined"
      and jm: "joined ! m = (std ! n, fst (contest_frame_row c))"
      unfolding dn by (metis in_set_conv_nth)
    let ?oid = "office_ids (map fst joined) ! m"
    have "df_contest ! m = (fst (contest_frame_row c))\<lparr>office_id := ?oid\<rparr>"
      unfolding dc using m lenz jm by simp
    moreover have "m < length df_contest" unfolding dc using m lenz by simp
    ultimately have "(fst (contest_frame_row c))\<lparr>office_id := ?oid\<rparr> \<in> set df_contest"
      using nth_mem [of m df_contest] by simp
    then show "\<exists>r\<in>set df_contest. \<exists>oid. r = (fst (contest_frame_row c))\<lparr>office_id := oid\<rparr>"
      by blast
  qed
qed

lemma int8_id: "- 128 \<le> x \<Longrightarrow> x \<le> 127 \<Longrightarrow> int8 x = x"
  unfolding int8_def by (rule wrap_int_id) simp_all

text \<open>
  C10, as stated, fails outside the range of \<^verbatim>\<open>np.int8\<close>: the manifest's numbers are
  cast before they are compared. A contest with \<^verbatim>\<open>NumOfRanks\<close> 130 and \<^verbatim>\<open>VoteFor\<close>
  200 is stored with \<^verbatim>\<open>NumOfRanks\<close> -126, is not flagged as ranked, and gets
  vote_for -56.
\<close>

theorem ranked_flag_wraps:
  "(case sf_preprocess [governor_transformer]
           (sf_read_raw
              (sample_archive\<lparr>ContestManifest :=
                 [\<lparr>c_Id = 1, c_ExternalId = 10, c_DistrictId = 1, c_VoteFor = 200,
                   c_NumOfRanks = 130, c_Disabled = False, c_Description = ''Governor''\<rparr>]\<rparr>)
              None)
    of Inl e \<Rightarrow> False
     | Inr (df_cvr, df_contest, rest) \<Rightarrow>
         map (\<lambda>r. (NumOfRanks r, ranked r, vote_for r)) df_contest = [(- 126, False, - 56)])"
  by code_simp

text \<open>
  C10, amended: in the nested path, every row of the output Contest table has its ranked
  flag set exactly when its \<^verbatim>\<open>NumOfRanks\<close> column, which is the manifest's
  \<^verbatim>\<open>NumOfRanks\<close> cast to \<^verbatim>\<open>np.int8\<close>, is greater than 1; the row comes from a
  manifest entry, and its vote_for is that \<^verbatim>\<open>NumOfRanks\<close> column when it is ranked and
  the manifest's \<^verbatim>\<open>VoteFor\<close> cast to \<^verbatim>\<open>np.int8\<close> otherwise. Every manifest entry
  has such a row. When the manifest's \<^verbatim>\<open>NumOfRanks\<close> and \<^verbatim>\<open>VoteFor\<close> lie between
  -128 and 127, the casts change nothing: the contest is ranked exactly when the
  manifest's \<^verbatim>\<open>NumOfRanks\<close> is greater than 1, and vote_for is the manifest's
  \<^verbatim>\<open>NumOfRanks\<close> for a ranked contest and the manifest's \<^verbatim>\<open>VoteFor\<close> otherwise.
\<close>

theorem ranked_contests:
  assumes "sf_preprocess ts data = Inr (df_cvr, df_contest, df_office, df_candidate, df_mark)"
  shows "(\<forall>r\<in>set df_contest.
            (ranked r \<longleftrightarrow> 1 < NumOfRanks r)
          \<and> (\<exists>c\<in>set (fst (snd data)).
                 contest_id r = int16 (c_Id c)
               \<and> NumOfRanks r = int8 (c_NumOfRanks c)
               \<and> vote_for r = (if ranked r then NumOfRanks r else int8 (c_VoteFor c))
               \<and> (- 128 \<le> c_NumOfRanks c \<and> c_NumOfRanks c \<le> 127
                    \<and> - 128 \<le> c_VoteFor c \<and> c_VoteFor c \<le> 127
                  \<longrightarrow> (ranked r \<longleftrightarrow> 1 < c_NumOfRanks c)
                      \<and> vote_for r = (if 1 < c_NumOfRanks c then c_NumOfRanks c
                                       else c_VoteFor c))))
       \<and> (\<forall>c\<in>set (fst (snd data)). \<exists>r\<in>set df_contest.
              contest_id r = int16 (c_Id c)
            \<and> NumOfRanks r = int8 (c_NumOfRanks c)
            \<and> ranked r = (1 < int8 (c_NumOfRanks c))
            \<and> vote_for r = (if 1 < int8 (c_NumOfRanks c) then int8 (c_NumOfRanks c)
                             else int8 (c_VoteFor c))
            \<and> (- 128 \<le> c_NumOfRanks c \<and> c_NumOfRanks c \<le> 127
                 \<and> - 128 \<le> c_VoteFor c \<and> c_VoteFor c \<le> 127
               \<longrightarrow> (ranked r \<longleftrightarrow> 1 < c_NumOfRanks c)
                   \<and> vote_for r = (if 1 < c_NumOfRanks c then c_NumOfRanks c
                                    else c_VoteFor c)))"
proof (intro conjI ballI)
  fix r assume "r \<in> set df_contest"
  with sf_contest_rows [OF assms] obtain c oid where
    c: "c \<in> set (fst (snd data))" and r: "r = (fst (contest_frame_row c))\<lparr>office_id := oid\<rparr>"
    by blast
  show "ranked r \<longleftrightarrow> 1 < NumOfRanks r"
    using contest_frame_row_fields [of c] by (simp add: r)
  have "contest_id r = int16 (c_Id c) \<and> NumOfRanks r = int8 (c_NumOfRanks c)
      \<and> vote_for r = (if ranked r then NumOfRanks r else int8 (c_VoteFor c))
      \<and> (- 128 \<le> c_NumOfRanks c \<and> c_NumOfRanks c \<le> 127
           \<and> - 128 \<le> c_VoteFor c \<and> c_VoteFor c \<le> 127
         \<longrightarrow> (ranked r \<longleftrightarrow> 1 < c_NumOfRanks c)
             \<and> vote_for r = (if 1 < c_NumOfRanks c then c_NumOfRanks c else c_VoteFor c))"
    using contest_frame_row_fields [of c] by (simp add: r int8_id)
  with c show "\<exists>c\<in>set (fst (snd data)).
      contest_id r = int16 (c_Id c) \<and> NumOfRanks r = int8 (c_NumOfRanks c)
      \<and> vote_for r = (if ranked r then NumOfRanks r else int8 (c_VoteFor c))
      \<and> (- 128 \<le> c_NumOfRanks c \<and> c_NumOfRanks c \<le> 127
           \<and> - 128 \<le> c_VoteFor c \<and> c_VoteFor c \<le> 127
         \<longrightarrow> (ranked r \<longleftrightarrow> 1 < c_NumOfRanks c)
             \<and> vote_for r = (if 1 < c_NumOfRanks c then c_NumOfRanks c else c_VoteFor c))"
    by blast
next
  fix c assume "c \<in> set (fst (snd data))"
  with sf_contest_rows [OF assms] obtain r oid where
    r: "r \<in> set df_contest" and eq: "r = (fst (contest_frame_row c))\<lparr>office_id := oid\<rparr>"
    by blast
  have "contest_id r = int16 (c_Id c) \<and> NumOfRanks r = int8 (c_NumOfRanks c)
      \<and> ranked r = (1 < int8 (c_NumOfRanks c))
      \<and> vote_for r = (if 1 < int8 (c_NumOfRanks c) then int8 (c_NumOfRanks c)
                       else int8 (c_VoteFor c))
      \<and> (- 128 \<le> c_NumOfRanks c \<and> c_NumOfRanks c \<le> 127
           \<and> - 128 \<le> c_VoteFor c \<and> c_VoteFor c \<le> 127
         \<longrightarrow> (ranked r \<longleftrightarrow> 1 < c_NumOfRanks c)
             \<and> vote_for r = (if 1 < c_NumOfRanks c then c_NumOfRanks c else c_VoteFor c))"
    using contest_frame_row_fields [of c] by (simp add: eq int8_id)
  with r show "\<exists>r\<in>set df_contest.
      contest_id r = int16 (c_Id c) \<and> NumOfRanks r = int8 (c_NumOfRanks c)
      \<and> ranked r = (1 < int8 (c_NumOfRanks c))
      \<and> vote_for r = (if 1 < int8 (c_NumOfRanks c) then int8 (c_NumOfRanks c)
                       else int8 (c_VoteFor c))
      \<and> (- 128 \<le> c_NumOfRanks c \<and> c_NumOfRanks c \<le> 127
           \<and> - 128 \<le> c_VoteFor c \<and> c_VoteFor c \<le> 127
         \<longrightarrow> (ranked r \<longleftrightarrow> 1 < c_NumOfRanks c)
             \<and> vote_for r = (if 1 < c_NumOfRanks c then c_NumOfRanks c else c_VoteFor c))"
    by blast
qed

lemma not_isl_five:
  "\<not> isl x \<Longrightarrow>
     x = Inr (fst (projr x), fst (snd (projr x)), fst (snd (snd (projr x))),
              fst (snd (snd (snd (projr x)))), snd (snd (snd (snd (projr x)))))"
  by (cases x) auto

theorem ranked_contests_witness:
  "\<not> isl (sf_preprocess [governor_transformer] (sf_read_raw sample_archive None))
   \<and> list_all (\<lambda>r. ranked r = (1 < NumOfRanks r))
        (fst (snd (projr (sf_preprocess [governor_transformer]
           (sf_read_raw sample_archive None)))))
   \<and> map (\<lambda>c. (c_Id c, c_NumOfRanks c, c_VoteFor c))
        (fst (snd (sf_read_raw sample_archive None))) = [(2, 3, 1), (1, 0, 2)]
   \<and> map (\<lambda>r. (contest_id r, NumOfRanks r, ranked r, vote_for r))
        (fst (snd (projr (sf_preprocess [governor_transformer]
           (sf_read_raw sample_archive None)))))
      = [(1, 0, False, 2), (2, 3, True, 3)]"
proof -
  let ?x = "sf_preprocess [governor_transformer] (sf_read_raw sample_archive None)"
  have 1: "\<not> isl ?x" by code_simp
  have 2: "map (\<lambda>r. (contest_id r, NumOfRanks r, ranked r, vote_for r)) (fst (snd (projr ?x)))
      = [(1, 0, False, 2), (2, 3, True, 3)]" by code_simp
  have 3: "map (\<lambda>c. (c_Id c, c_NumOfRanks c, c_VoteFor c))
        (fst (snd (sf_read_raw sample_archive None))) = [(2, 3, 1), (1, 0, 2)]" by code_simp
  note t = ranked_contests [OF not_isl_five [OF 1], THEN conjunct1]
  have "\<forall>r\<in>set (fst (snd (projr ?x))). ranked r \<longleftrightarrow> 1 < NumOfRanks r"
  proof
    fix r assume "r \<in> set (fst (snd (projr ?x)))"
    with t show "ranked r \<longleftrightarrow> 1 < NumOfRanks r" by blast
  qed
  then have "list_all (\<lambda>r. ranked r = (1 < NumOfRanks r)) (fst (snd (projr ?x)))"
    by (simp only: list_all_iff)
  with 1 2 3 show ?thesis by (intro conjI)
qed

end
